theory Spec2Isabelle
  imports Complex_Main "HOL-Library.Sublist" "HOL-Library.Multiset"
begin

section \<open>Numbers\<close>

text \<open>
  A JavaScript \<^verbatim>\<open>number\<close> is modelled as a real extended with the three
  non-finite values of IEEE 754. Rounding to the nearest double and the sign of zero are
  not modelled: a finite result stands for the double next to it.

  The operations \<^verbatim>\<open>fadd\<close>, \<^verbatim>\<open>fsub\<close>, \<^verbatim>\<open>fmul\<close> and \<^verbatim>\<open>fdiv\<close> are exact on
  finite values; what they keep of the floating-point semantics is where a non-finite
  value appears and how it spreads: \<^verbatim>\<open>0/0\<close> is \<^verbatim>\<open>NaN\<close>, \<^verbatim>\<open>x/0\<close> is an
  infinity, the square root of a negative number is \<^verbatim>\<open>NaN\<close>, every comparison with
  \<^verbatim>\<open>NaN\<close> is false.

  The operations \<^verbatim>\<open>radd\<close>, \<^verbatim>\<open>rsub\<close>, \<^verbatim>\<open>rmul\<close>, \<^verbatim>\<open>rdiv\<close> and
  \<^verbatim>\<open>rexp\<close> keep the range of the doubles as well: a result whose magnitude is
  \<^verbatim>\<open>2^1024 - 2^970\<close> or more, which rounding takes to an infinity, is that infinity,
  and a result whose magnitude is \<^verbatim>\<open>2^-1075\<close> or less, which rounding takes to
  zero, is zero. The arithmetic on the samples of a wavefunction (the time step, the norm,
  the initial states), where squares and quotients of samples are formed, is written with
  these; the set-up of grids, phases and potentials is written with the exact operations.
\<close>

datatype float64 = Fin real | PosInf | NegInf | NaN

fun fsign :: "float64 \<Rightarrow> real" where
  "fsign (Fin a) = sgn a"
| "fsign PosInf = 1"
| "fsign NegInf = - 1"
| "fsign NaN = 0"

definition finf :: "real \<Rightarrow> float64" where
  "finf s = (if s = 0 then NaN else if 0 < s then PosInf else NegInf)"

fun isFinite :: "float64 \<Rightarrow> bool" where
  "isFinite (Fin a) = True"
| "isFinite _ = False"

fun fneg :: "float64 \<Rightarrow> float64" where
  "fneg (Fin a) = Fin (- a)"
| "fneg PosInf = NegInf"
| "fneg NegInf = PosInf"
| "fneg NaN = NaN"

fun fadd :: "float64 \<Rightarrow> float64 \<Rightarrow> float64" where
  "fadd (Fin a) (Fin b) = Fin (a + b)"
| "fadd NaN _ = NaN"
| "fadd _ NaN = NaN"
| "fadd PosInf NegInf = NaN"
| "fadd NegInf PosInf = NaN"
| "fadd PosInf _ = PosInf"
| "fadd _ PosInf = PosInf"
| "fadd NegInf _ = NegInf"
| "fadd _ NegInf = NegInf"

definition fsub :: "float64 \<Rightarrow> float64 \<Rightarrow> float64" where
  "fsub a b = fadd a (fneg b)"

fun fmul :: "float64 \<Rightarrow> float64 \<Rightarrow> float64" where
  "fmul (Fin a) (Fin b) = Fin (a * b)"
| "fmul NaN _ = NaN"
| "fmul _ NaN = NaN"
| "fmul a b = finf (fsign a * fsign b)"

fun fdiv :: "float64 \<Rightarrow> float64 \<Rightarrow> float64" where
  "fdiv (Fin a) (Fin b) = (if b = 0 then finf (sgn a) else Fin (a / b))"
| "fdiv NaN _ = NaN"
| "fdiv _ NaN = NaN"
| "fdiv (Fin a) _ = Fin 0"
| "fdiv a (Fin b) = finf (fsign a * (if b < 0 then - 1 else 1))"
| "fdiv _ _ = NaN"

fun fsqrt :: "float64 \<Rightarrow> float64" where
  "fsqrt (Fin a) = (if a < 0 then NaN else Fin (sqrt a))"
| "fsqrt PosInf = PosInf"
| "fsqrt _ = NaN"

fun fcos :: "float64 \<Rightarrow> float64" where
  "fcos (Fin a) = Fin (cos a)"
| "fcos _ = NaN"

fun fsin :: "float64 \<Rightarrow> float64" where
  "fsin (Fin a) = Fin (sin a)"
| "fsin _ = NaN"

fun fexp :: "float64 \<Rightarrow> float64" where
  "fexp (Fin a) = Fin (exp a)"
| "fexp PosInf = PosInf"
| "fexp NegInf = Fin 0"
| "fexp NaN = NaN"

text \<open>\<^verbatim>\<open>a < b\<close> and \<^verbatim>\<open>a > b\<close> on numbers.\<close>

fun flt :: "float64 \<Rightarrow> float64 \<Rightarrow> bool" where
  "flt (Fin a) (Fin b) = (a < b)"
| "flt NaN _ = False"
| "flt _ NaN = False"
| "flt _ NegInf = False"
| "flt PosInf _ = False"
| "flt _ _ = True"

definition fgt :: "float64 \<Rightarrow> float64 \<Rightarrow> bool" where
  "fgt a b = flt b a"

text \<open>\<^verbatim>\<open>a <= b\<close> and \<^verbatim>\<open>a >= b\<close>, and \<^verbatim>\<open>Math.abs\<close>.\<close>

definition fle :: "float64 \<Rightarrow> float64 \<Rightarrow> bool" where
  "fle a b = (a \<noteq> NaN \<and> b \<noteq> NaN \<and> (a = b \<or> flt a b))"

definition fge :: "float64 \<Rightarrow> float64 \<Rightarrow> bool" where
  "fge a b = fle b a"

definition fabs :: "float64 \<Rightarrow> float64" where
  "fabs a = (case a of Fin r \<Rightarrow> Fin \<bar>r\<bar> | NaN \<Rightarrow> NaN | _ \<Rightarrow> PosInf)"

text \<open>
  \<^verbatim>\<open>Math.max\<close> and \<^verbatim>\<open>Math.min\<close> of two numbers: \<^verbatim>\<open>NaN\<close> when either is
  \<^verbatim>\<open>NaN\<close>.
\<close>

fun fmax :: "float64 \<Rightarrow> float64 \<Rightarrow> float64" where
  "fmax (Fin a) (Fin b) = Fin (Orderings.max a b)"
| "fmax NaN _ = NaN"
| "fmax _ NaN = NaN"
| "fmax PosInf _ = PosInf"
| "fmax _ PosInf = PosInf"
| "fmax NegInf b = b"
| "fmax a NegInf = a"

fun fmin :: "float64 \<Rightarrow> float64 \<Rightarrow> float64" where
  "fmin (Fin a) (Fin b) = Fin (Orderings.min a b)"
| "fmin NaN _ = NaN"
| "fmin _ NaN = NaN"
| "fmin NegInf _ = NegInf"
| "fmin _ NegInf = NegInf"
| "fmin PosInf b = b"
| "fmin a PosInf = a"

text \<open>The range of the doubles, and the operations that keep it.\<close>

definition overflowThreshold :: real where
  "overflowThreshold = 2 ^ 1024 - 2 ^ 970"

definition underflowThreshold :: real where
  "underflowThreshold = 1 / 2 ^ 1075"

definition fromReal :: "real \<Rightarrow> float64" where
  "fromReal r =
     (if overflowThreshold \<le> r then PosInf
      else if r \<le> - overflowThreshold then NegInf
      else if \<bar>r\<bar> \<le> underflowThreshold then Fin 0
      else Fin r)"

definition toRange :: "float64 \<Rightarrow> float64" where
  "toRange a = (case a of Fin r \<Rightarrow> fromReal r | _ \<Rightarrow> a)"

definition radd :: "float64 \<Rightarrow> float64 \<Rightarrow> float64" where
  "radd a b = toRange (fadd a b)"

definition rsub :: "float64 \<Rightarrow> float64 \<Rightarrow> float64" where
  "rsub a b = toRange (fsub a b)"

definition rmul :: "float64 \<Rightarrow> float64 \<Rightarrow> float64" where
  "rmul a b = toRange (fmul a b)"

definition rdiv :: "float64 \<Rightarrow> float64 \<Rightarrow> float64" where
  "rdiv a b = toRange (fdiv a b)"

definition rexp :: "float64 \<Rightarrow> float64" where
  "rexp a = toRange (fexp a)"

text \<open>\<^verbatim>\<open>Math.PI\<close> is the double next to \<open>\<pi>\<close>.\<close>

definition MathPI :: real where
  "MathPI = 884279719003555 / 281474976710656"

text \<open>
  A \<^verbatim>\<open>Float64Array\<close> is a list. Reading past the end gives \<^verbatim>\<open>undefined\<close>,
  which every arithmetic operation and every store into a typed array turns into
  \<^verbatim>\<open>NaN\<close>; writing past the end is ignored, which is what \<^term>\<open>list_update\<close> does.
\<close>

definition rd :: "float64 list \<Rightarrow> nat \<Rightarrow> float64" where
  "rd xs i = (if i < length xs then xs ! i else NaN)"

section \<open>Parameters (parameters.ts)\<close>

text \<open>
  The numeric fields of a \<^verbatim>\<open>Parameter\<close> are numbers, \<^verbatim>\<open>NaN\<close> and the
  infinities included: the value typed into an input field comes from
  \<^verbatim>\<open>parseFloat\<close>, which gives \<^verbatim>\<open>NaN\<close> for an empty field.
\<close>

record Parameter =
  name :: string
  "value" :: float64
  min :: float64
  max :: float64
  step :: float64
  description :: "string option"

definition createParameter ::
  "string \<Rightarrow> float64 \<Rightarrow> float64 \<Rightarrow> float64 \<Rightarrow> float64 \<Rightarrow> string option \<Rightarrow> Parameter" where
  "createParameter nm v mn mx st d =
     \<lparr>name = nm, value = fmax mn (fmin mx v), min = mn, max = mx, step = st, description = d\<rparr>"


section \<open>The solver (tdse-solver.ts)\<close>

text \<open>
  \<^verbatim>\<open>gridSize\<close> is a number of grid points, a natural number; the other simulation
  parameters are numbers.
\<close>

record SimulationParameters =
  gridSize :: nat
  xMin :: float64
  xMax :: float64
  dt :: float64
  hbar :: float64
  mass :: float64

record WavefunctionState =
  real' :: "float64 list"
  imag :: "float64 list"
  time :: float64

record TDSESolver =
  params :: SimulationParameters
  x :: "float64 list"
  dx :: float64
  k :: "float64 list"
  dk :: float64
  expVhalf_real :: "float64 list"
  expVhalf_imag :: "float64 list"
  expT_real :: "float64 list"
  expT_imag :: "float64 list"
  potential :: "float64 list"

datatype error = DimensionError | EvalError | PotentialError | FFTSizeError

text \<open>
  \<^verbatim>\<open>Math.pow(2, Math.ceil(Math.log2(gridSize)))\<close>. \<^verbatim>\<open>Math.log2(0)\<close> is
  \<^verbatim>\<open>-Infinity\<close>, and \<^verbatim>\<open>Math.pow(2, -Infinity)\<close> is \<^verbatim>\<open>0\<close>.
\<close>

definition effectiveGridSize :: "nat \<Rightarrow> nat" where
  "effectiveGridSize g = (if g = 0 then 0 else 2 ^ nat \<lceil>log 2 (real g)\<rceil>)"

definition kineticPhase :: "SimulationParameters \<Rightarrow> float64 \<Rightarrow> float64" where
  "kineticPhase p ki =
     fdiv (fmul (fmul (fmul (fneg (hbar p)) ki) ki) (dt p)) (fmul (Fin 2) (mass p))"

definition updateKineticOperator :: "TDSESolver \<Rightarrow> TDSESolver" where
  "updateKineticOperator s =
     fold (\<lambda>i s. s\<lparr>expT_real := (expT_real s)[i := fcos (kineticPhase (params s) (rd (k s) i))],
                    expT_imag := (expT_imag s)[i := fsin (kineticPhase (params s) (rd (k s) i))]\<rparr>)
       [0..<gridSize (params s)] s"

text \<open>
  The constructor of an \<^verbatim>\<open>FFT\<close> object of the library fft.js, which the solver's
  constructor calls twice. It begins
  \<^verbatim>\<open>this.size = size | 0; if (this.size <= 1 || (this.size & (this.size - 1)) !== 0) throw \<dots>\<close>
  (``FFT size must be a power of two and bigger than 1''), where \<^verbatim>\<open>size | 0\<close> is the
  conversion to a signed integer of 32 bits. Of the object only the size is kept; its
  two transforms are parameters of \<^verbatim>\<open>step\<close> below.
\<close>

definition toInt32 :: "nat \<Rightarrow> int" where
  "toInt32 v = (let m = int v mod 2 ^ 32 in if 2 ^ 31 \<le> m then m - 2 ^ 32 else m)"

definition FFT_constructor :: "nat \<Rightarrow> error + int" where
  "FFT_constructor size' =
     (let sz = toInt32 size'
      in if sz \<le> 1 \<or> and sz (sz - 1) \<noteq> 0 then Inl FFTSizeError else Inr sz)"

text \<open>
  The solver's constructor, in two parts: \<^verbatim>\<open>TDSESolver_setup\<close> is what the
  constructor does after it has created the two \<^verbatim>\<open>FFT\<close> objects (the grid, the
  momenta, the arrays of the operators and the kinetic operator), and the constructor
  itself fails where the creation of an \<^verbatim>\<open>FFT\<close> object fails. The second loop over
  \<^verbatim>\<open>k\<close> starts at \<^verbatim>\<open>n / 2\<close>: when \<^verbatim>\<open>n\<close> is odd its indices are not
  integers and the typed array ignores the writes.
\<close>

definition TDSESolver_setup :: "SimulationParameters \<Rightarrow> TDSESolver" where
  "TDSESolver_setup p0 =
     (let n = effectiveGridSize (gridSize p0);
          p = p0\<lparr>gridSize := n\<rparr>;
          dx = fdiv (fsub (xMax p) (xMin p)) (Fin (real n));
          x = fold (\<lambda>i a. a[i := fadd (xMin p) (fmul (Fin (real i)) dx)]) [0..<n]
                (replicate n (Fin 0));
          dk = fdiv (fmul (Fin 2) (Fin MathPI)) (fsub (xMax p) (xMin p));
          k1 = fold (\<lambda>i a. a[i := fmul (Fin (real i)) dk]) [0..<(n + 1) div 2]
                 (replicate n (Fin 0));
          k2 = (if even n
                then fold (\<lambda>i a. a[i := fmul (Fin (real i - real n)) dk]) [n div 2..<n] k1
                else k1)
      in updateKineticOperator
           \<lparr>params = p, x = x, dx = dx, k = k2, dk = dk,
            expVhalf_real = replicate n (Fin 0), expVhalf_imag = replicate n (Fin 0),
            expT_real = replicate n (Fin 0), expT_imag = replicate n (Fin 0),
            potential = replicate n (Fin 0)\<rparr>)"

definition TDSESolver_constructor :: "SimulationParameters \<Rightarrow> error + TDSESolver" where
  "TDSESolver_constructor p0 =
     (let n = effectiveGridSize (gridSize p0)
      in case FFT_constructor n of
           Inl e \<Rightarrow> Inl e
         | Inr fft \<Rightarrow>
             (case FFT_constructor n of
                Inl e \<Rightarrow> Inl e
              | Inr ifft \<Rightarrow> Inr (TDSESolver_setup p0)))"





text \<open>The interleaved copy of a complex array, and its two halves read back.\<close>

definition interleave :: "nat \<Rightarrow> float64 list \<Rightarrow> float64 list \<Rightarrow> float64 list" where
  "interleave n re im =
     fold (\<lambda>i a. (a[2 * i := rd re i])[2 * i + 1 := rd im i]) [0..<n] (replicate (2 * n) (Fin 0))"

definition evens :: "nat \<Rightarrow> float64 list \<Rightarrow> float64 list" where
  "evens n c = fold (\<lambda>i a. a[i := rd c (2 * i)]) [0..<n] (replicate n (Fin 0))"

definition odds :: "nat \<Rightarrow> float64 list \<Rightarrow> float64 list" where
  "odds n c = fold (\<lambda>i a. a[i := rd c (2 * i + 1)]) [0..<n] (replicate n (Fin 0))"

definition sumSquares :: "nat \<Rightarrow> float64 list \<Rightarrow> float64 list \<Rightarrow> float64" where
  "sumSquares n re im =
     fold (\<lambda>i acc. radd acc (radd (rmul (rd re i) (rd re i)) (rmul (rd im i) (rd im i))))
       [0..<n] (Fin 0)"

definition divideBy :: "nat \<Rightarrow> float64 \<Rightarrow> WavefunctionState \<Rightarrow> WavefunctionState" where
  "divideBy n norm' state =
     fold (\<lambda>i st. (st\<lparr>real' := (real' st)[i := rdiv (rd (real' st) i) norm']\<rparr>)
                     \<lparr>imag := (imag st)[i := rdiv (rd (imag st) i) norm']\<rparr>)
       [0..<n] state"





section \<open>Preset initial states (tdse-solver.ts)\<close>

text \<open>
  Each initializer fills two fresh arrays of the length of \<^verbatim>\<open>solver.x\<close> and divides
  them by the norm. The three presets divide without looking at the norm.
\<close>

definition createGaussianWavepacket ::
  "TDSESolver \<Rightarrow> float64 \<Rightarrow> float64 \<Rightarrow> float64 \<Rightarrow> WavefunctionState" where
  "createGaussianWavepacket solver x0 sigma k0 =
     (let n = length (x solver);
          state = fold (\<lambda>i st.
                    let xv = rd (x solver) i;
                        gaussian = rexp (rdiv (fneg (rmul (rsub xv x0) (rsub xv x0)))
                                     (rmul (rmul (Fin 4) sigma) sigma))
                    in (st\<lparr>real' := (real' st)[i := rmul gaussian (fcos (rmul k0 xv))]\<rparr>)
                         \<lparr>imag := (imag st)[i := rmul gaussian (fsin (rmul k0 xv))]\<rparr>)
                  [0..<n]
                  \<lparr>real' = replicate n (Fin 0), imag = replicate n (Fin 0), time = Fin 0\<rparr>;
          norm' = fsqrt (rmul (sumSquares n (real' state) (imag state)) (dx solver))
      in divideBy n norm' state)"

definition createPlaneWave :: "TDSESolver \<Rightarrow> float64 \<Rightarrow> float64 \<Rightarrow> WavefunctionState" where
  "createPlaneWave solver amplitude k0 =
     (let n = length (x solver);
          state = fold (\<lambda>i st.
                    let xv = rd (x solver) i
                    in (st\<lparr>real' := (real' st)[i := rmul amplitude (fcos (rmul k0 xv))]\<rparr>)
                         \<lparr>imag := (imag st)[i := rmul amplitude (fsin (rmul k0 xv))]\<rparr>)
                  [0..<n]
                  \<lparr>real' = replicate n (Fin 0), imag = replicate n (Fin 0), time = Fin 0\<rparr>;
          norm' = fsqrt (rmul (sumSquares n (real' state) (imag state)) (dx solver))
      in divideBy n norm' state)"

definition createBoundState :: "TDSESolver \<Rightarrow> float64 \<Rightarrow> float64 \<Rightarrow> WavefunctionState" where
  "createBoundState solver n L =
     (let nPoints = length (x solver);
          state = fold (\<lambda>i st.
                    let xv = rd (x solver) i
                    in if fgt xv (Fin 0) \<and> flt xv L
                       then (st\<lparr>real' := (real' st)[i := rmul (fsqrt (rdiv (Fin 2) L))
                                                 (fsin (rdiv (rmul (rmul n (Fin MathPI)) xv) L))]\<rparr>)
                              \<lparr>imag := (imag st)[i := Fin 0]\<rparr>
                       else (st\<lparr>real' := (real' st)[i := Fin 0]\<rparr>)
                              \<lparr>imag := (imag st)[i := Fin 0]\<rparr>)
                  [0..<nPoints]
                  \<lparr>real' = replicate nPoints (Fin 0), imag = replicate nPoints (Fin 0), time = Fin 0\<rparr>;
          norm' = fsqrt (rmul (sumSquares nPoints (real' state) (imag state)) (dx solver))
      in divideBy nPoints norm' state)"

section \<open>Potentials (potentials.ts)\<close>

definition createFreePotential :: "float64 list \<Rightarrow> float64 list" where
  "createFreePotential xs = replicate (length xs) (Fin 0)"

definition createBarrierPotential ::
  "float64 list \<Rightarrow> float64 \<Rightarrow> float64 \<Rightarrow> float64 \<Rightarrow> float64 list" where
  "createBarrierPotential xs v0 x0 width =
     (let halfWidth = fdiv width (Fin 2)
      in fold (\<lambda>i V. if flt (fabs (fsub (rd xs i) x0)) halfWidth then V[i := v0] else V[i := Fin 0])
           [0..<length xs] (replicate (length xs) (Fin 0)))"

definition createWellPotential ::
  "float64 list \<Rightarrow> float64 \<Rightarrow> float64 \<Rightarrow> float64 \<Rightarrow> float64 list" where
  "createWellPotential xs v0 x0 width =
     (let halfWidth = fdiv width (Fin 2)
      in fold (\<lambda>i V. if flt (fabs (fsub (rd xs i) x0)) halfWidth then V[i := fneg v0] else V[i := Fin 0])
           [0..<length xs] (replicate (length xs) (Fin 0)))"

definition createHarmonicPotential ::
  "float64 list \<Rightarrow> float64 \<Rightarrow> float64 \<Rightarrow> float64 \<Rightarrow> float64 list" where
  "createHarmonicPotential xs m omega x0 =
     fold (\<lambda>i V. let d = fsub (rd xs i) x0
                  in V[i := fmul (fmul (fmul (fmul (fmul (Fin 0.5) m) omega) omega) d) d])
       [0..<length xs] (replicate (length xs) (Fin 0))"

text \<open>
  Control points of a drawn potential are pairs \<^verbatim>\<open>(x, y)\<close> of finite numbers.
  \<^verbatim>\<open>Array.prototype.sort\<close> is stable, as \<^term>\<open>sort_key\<close> is. The search loop takes
  the first segment that contains the grid point and otherwise leaves the indices at the
  first and the last point.
\<close>

definition findSegment :: "(real \<times> real) list \<Rightarrow> float64 \<Rightarrow> nat \<times> nat" where
  "findSegment sortedPoints xi =
     (case find (\<lambda>j. fge xi (Fin (fst (sortedPoints ! j))) \<and> fle xi (Fin (fst (sortedPoints ! (j + 1)))))
             [0..<length sortedPoints - 1] of
        Some j \<Rightarrow> (j, j + 1)
      | None \<Rightarrow> (0, length sortedPoints - 1))"

definition drawnValue :: "(real \<times> real) list \<Rightarrow> float64 \<Rightarrow> float64" where
  "drawnValue sortedPoints xi =
     (let (leftIdx, rightIdx) = findSegment sortedPoints xi
      in if fle xi (Fin (fst (sortedPoints ! 0))) then Fin (snd (sortedPoints ! 0))
         else if fge xi (Fin (fst (sortedPoints ! (length sortedPoints - 1))))
         then Fin (snd (sortedPoints ! (length sortedPoints - 1)))
         else (let x1 = Fin (fst (sortedPoints ! leftIdx)); x2 = Fin (fst (sortedPoints ! rightIdx));
                   y1 = Fin (snd (sortedPoints ! leftIdx)); y2 = Fin (snd (sortedPoints ! rightIdx));
                   t = fdiv (fsub xi x1) (fsub x2 x1)
               in fadd y1 (fmul t (fsub y2 y1))))"

definition createDrawnPotential :: "float64 list \<Rightarrow> (real \<times> real) list \<Rightarrow> float64 list" where
  "createDrawnPotential xs points =
     (if points = [] then replicate (length xs) (Fin 0)
      else let sortedPoints = sort_key fst points
           in fold (\<lambda>i V. V[i := drawnValue sortedPoints (rd xs i)])
                [0..<length xs] (replicate (length xs) (Fin 0)))"

section \<open>Expressions as strings (parameters.ts)\<close>

text \<open>
  The character classes of the regular expressions used by the source, on ASCII:
  \<^verbatim>\<open>[a-zA-Z]\<close>, \<^verbatim>\<open>\d\<close>, \<^verbatim>\<open>\w\<close> and \<^verbatim>\<open>\s\<close>.
\<close>

definition isLetter :: "char \<Rightarrow> bool" where
  "isLetter c = (let n = (of_char c :: nat) in (65 \<le> n \<and> n \<le> 90) \<or> (97 \<le> n \<and> n \<le> 122))"

definition isDigit :: "char \<Rightarrow> bool" where
  "isDigit c = (let n = (of_char c :: nat) in 48 \<le> n \<and> n \<le> 57)"

definition isAlnum :: "char \<Rightarrow> bool" where
  "isAlnum c = (isLetter c \<or> isDigit c)"

definition isWordChar :: "char \<Rightarrow> bool" where
  "isWordChar c = (isAlnum c \<or> c = CHR ''_'')"

definition isSpace :: "char \<Rightarrow> bool" where
  "isSpace c = ((of_char c :: nat) \<in> {9, 10, 11, 12, 13, 32, 160})"

definition toLower :: "char \<Rightarrow> char" where
  "toLower c = (let n = (of_char c :: nat) in if 65 \<le> n \<and> n \<le> 90 then char_of (n + 32) else c)"

definition toLowerCase :: "string \<Rightarrow> string" where
  "toLowerCase s = map toLower s"

definition trim :: "string \<Rightarrow> string" where
  "trim s = rev (dropWhile isSpace (rev (dropWhile isSpace s)))"

definition startsWithWord :: "string \<Rightarrow> bool" where
  "startsWithWord s = (case s of [] \<Rightarrow> False | c # _ \<Rightarrow> isWordChar c)"

text \<open>The lookahead \<^verbatim>\<open>\s*\(\<close>: after any white space comes an opening parenthesis.\<close>

definition nextIsParen :: "string \<Rightarrow> bool" where
  "nextIsParen s = (case dropWhile isSpace s of [] \<Rightarrow> False | c # _ \<Rightarrow> c = CHR ''('')"

text \<open>
  One attempt of \<^verbatim>\<open>([a-zA-Z][a-zA-Z0-9]*)(?!\s*\()\<close> at the start of a string that
  begins with a letter: the star is greedy and gives characters back one at a time until
  the negative lookahead holds. The result is the text matched and the rest of the string.
\<close>

definition identifierAt :: "string \<Rightarrow> (string \<times> string) option" where
  "identifierAt s =
     find (\<lambda>(m, r). \<not> nextIsParen r)
       (map (\<lambda>l. (take l s, drop l s)) (rev [1..<Suc (length (takeWhile isAlnum s))]))"

text \<open>
  All matches of \<^verbatim>\<open>/\b([a-zA-Z][a-zA-Z0-9]*)(?!\s*\()/g\<close>, from left to right. The first
  argument says whether the character before the current position is a word character:
  the pattern starts with a letter, so \<^verbatim>\<open>\b\<close> holds exactly when it is not. After a
  match the search goes on behind it.
\<close>

function identifierMatches :: "bool \<Rightarrow> string \<Rightarrow> string list" where
  "identifierMatches pw [] = []"
| "identifierMatches pw (c # cs) =
     (if \<not> pw \<and> isLetter c
      then (case identifierAt (c # cs) of
              Some (m, r) \<Rightarrow> m # identifierMatches True r
            | None \<Rightarrow> identifierMatches (isWordChar c) cs)
      else identifierMatches (isWordChar c) cs)"
  by pat_completeness auto
termination
proof (relation "measure (\<lambda>(pw, s). length s)")
  show "wf (measure (\<lambda>(pw, s). length s))"
    by simp
next
  fix pw :: bool and c :: char and cs :: string and x2 :: "string \<times> string" and m r :: string
  assume "identifierAt (c # cs) = Some x2" and "(m, r) = x2"
  then have "find (\<lambda>(m, r). \<not> nextIsParen r)
       (map (\<lambda>l. (take l (c # cs), drop l (c # cs)))
          (rev [1..<Suc (length (takeWhile isAlnum (c # cs)))])) = Some (m, r)"
    by (simp only: identifierAt_def)
  then obtain i where i: "i < length (map (\<lambda>l. (take l (c # cs), drop l (c # cs)))
          (rev [1..<Suc (length (takeWhile isAlnum (c # cs)))]))"
    and mr: "(m, r) = map (\<lambda>l. (take l (c # cs), drop l (c # cs)))
          (rev [1..<Suc (length (takeWhile isAlnum (c # cs)))]) ! i"
    unfolding find_Some_iff by blast
  from i have "map (\<lambda>l. (take l (c # cs), drop l (c # cs)))
          (rev [1..<Suc (length (takeWhile isAlnum (c # cs)))]) ! i
      \<in> set (map (\<lambda>l. (take l (c # cs), drop l (c # cs)))
          (rev [1..<Suc (length (takeWhile isAlnum (c # cs)))]))"
    by (rule nth_mem)
  with mr have "(m, r) \<in> set (map (\<lambda>l. (take l (c # cs), drop l (c # cs)))
      (rev [1..<Suc (length (takeWhile isAlnum (c # cs)))]))"
    by (simp only:)
  then obtain l where "l \<in> set (rev [1..<Suc (length (takeWhile isAlnum (c # cs)))])"
    and "(m, r) = (take l (c # cs), drop l (c # cs))"
    unfolding set_map by (rule imageE)
  then have "1 \<le> l" and "r = drop l (c # cs)"
    by (auto simp del: takeWhile.simps upt_Suc)
  then show "((True, r), (pw, c # cs)) \<in> measure (\<lambda>(pw, s). length s)"
    by simp
qed simp_all

text \<open>\<^verbatim>\<open>[...new Set(names)]\<close>: the names in the order of their first occurrence.\<close>

fun unique :: "string list \<Rightarrow> string list" where
  "unique [] = []"
| "unique (n # ns) = n # unique (filter (\<lambda>m. m \<noteq> n) ns)"

definition reservedKeywords :: "string list" where
  "reservedKeywords =
     [''x'', ''t'', ''i'', ''pi'', ''e'', ''sin'', ''cos'', ''tan'', ''sinh'', ''cosh'', ''tanh'',
      ''exp'', ''sqrt'', ''abs'', ''log'', ''ln'', ''true'', ''false'', ''if'', ''else'']"

definition extractParameterNames :: "string \<Rightarrow> string list" where
  "extractParameterNames expression =
     (let matches = identifierMatches False expression;
          potentialParameters =
            filter (\<lambda>name. toLowerCase name \<notin> set reservedKeywords \<and> length name > 1) matches
      in unique potentialParameters)"

text \<open>All matches of \<^verbatim>\<open>/\b([a-zA-Z])(?!\s*\()/g\<close>.\<close>

fun singleLetterMatches :: "bool \<Rightarrow> string \<Rightarrow> string list" where
  "singleLetterMatches pw [] = []"
| "singleLetterMatches pw (c # cs) =
     (if \<not> pw \<and> isLetter c \<and> \<not> nextIsParen cs
      then [c] # singleLetterMatches True cs
      else singleLetterMatches (isWordChar c) cs)"

definition builtInVariables :: "string list" where
  "builtInVariables = [''x'', ''t'', ''i'']"

definition extractSingleLetterVariables :: "string \<Rightarrow> string list" where
  "extractSingleLetterVariables expression =
     (let matches = singleLetterMatches False expression;
          potentialParameters = filter (\<lambda>letter. toLowerCase letter \<notin> set builtInVariables) matches
      in unique potentialParameters)"

definition isValidParameterName :: "string \<Rightarrow> bool" where
  "isValidParameterName nm =
     ((case nm of [] \<Rightarrow> False | c # cs \<Rightarrow> isLetter c \<and> list_all isAlnum cs) \<and> length nm > 1)"

text \<open>
  \<^verbatim>\<open>s.replace(new RegExp('\\b' + name + '\\b', 'g'), r)\<close> for a name without
  regular-expression operators, which is then searched literally; the flag \<^verbatim>\<open>ci\<close> is
  the \<^verbatim>\<open>i\<close> flag. Parameter names are identifiers: \<^verbatim>\<open>isValidParameterName\<close> guards
  the names typed in, the others are matches of the patterns above. The fourth argument
  says whether the character before the current position is a word character.
\<close>

definition wordAt :: "bool \<Rightarrow> string \<Rightarrow> bool \<Rightarrow> string \<Rightarrow> bool" where
  "wordAt ci nm pw s =
     (nm \<noteq> [] \<and> length nm \<le> length s
      \<and> (if ci then toLowerCase (take (length nm) s) = toLowerCase nm
          else take (length nm) s = nm)
      \<and> pw \<noteq> isWordChar (hd s)
      \<and> isWordChar (s ! (length nm - 1)) \<noteq> startsWithWord (drop (length nm) s))"

function replaceWord :: "bool \<Rightarrow> string \<Rightarrow> string \<Rightarrow> bool \<Rightarrow> string \<Rightarrow> string" where
  "replaceWord ci nm r pw [] = []"
| "replaceWord ci nm r pw (c # cs) =
     (if wordAt ci nm pw (c # cs)
      then r @ replaceWord ci nm r (isWordChar ((c # cs) ! (length nm - 1)))
                 (drop (length nm) (c # cs))
      else c # replaceWord ci nm r (isWordChar c) cs)"
  by pat_completeness auto
termination
  by (relation "measure (\<lambda>(ci, nm, r, pw, s). length s)") (auto simp: wordAt_def)

definition replaceAllWord :: "string \<Rightarrow> string \<Rightarrow> string \<Rightarrow> string" where
  "replaceAllWord nm r s = replaceWord False nm r False s"

definition replaceAllWordIgnoreCase :: "string \<Rightarrow> string \<Rightarrow> string \<Rightarrow> string" where
  "replaceAllWordIgnoreCase nm r s = replaceWord True nm r False s"

text \<open>
  \<^verbatim>\<open>s.replace(/\bname\s*\(/g, r)\<close> for a function name: the name at a word boundary,
  any white space and an opening parenthesis, all of which the replacement consumes.
\<close>

definition callAt :: "string \<Rightarrow> bool \<Rightarrow> string \<Rightarrow> bool" where
  "callAt nm pw s =
     (nm \<noteq> [] \<and> length nm \<le> length s \<and> take (length nm) s = nm
      \<and> pw \<noteq> isWordChar (hd s) \<and> nextIsParen (drop (length nm) s))"

function replaceCall :: "string \<Rightarrow> string \<Rightarrow> bool \<Rightarrow> string \<Rightarrow> string" where
  "replaceCall nm r pw [] = []"
| "replaceCall nm r pw (c # cs) =
     (if callAt nm pw (c # cs)
      then r @ replaceCall nm r False (tl (dropWhile isSpace (drop (length nm) (c # cs))))
      else c # replaceCall nm r (isWordChar c) cs)"
  by pat_completeness auto
termination
proof (relation "measure (\<lambda>(nm, r, pw, s). length s)")
  show "wf (measure (\<lambda>(nm, r, pw, s). length s))"
    by simp
next
  fix nm r :: string and pw :: bool and c :: char and cs :: string
  assume "callAt nm pw (c # cs)"
  then have "length (drop (length nm) (c # cs)) < length (c # cs)"
    by (auto simp: callAt_def)
  moreover have "length (tl (dropWhile isSpace (drop (length nm) (c # cs))))
      \<le> length (drop (length nm) (c # cs))"
    using length_dropWhile_le [of isSpace "drop (length nm) (c # cs)"] by simp
  ultimately show "((nm, r, False, tl (dropWhile isSpace (drop (length nm) (c # cs)))), (nm, r, pw, c # cs))
      \<in> measure (\<lambda>(nm, r, pw, s). length s)"
    by simp
qed simp

definition replaceAllCall :: "string \<Rightarrow> string \<Rightarrow> string \<Rightarrow> string" where
  "replaceAllCall nm r s = replaceCall nm r False s"

text \<open>\<^verbatim>\<open>s.replace(/\^/g, '**')\<close>.\<close>

definition replaceCaret :: "string \<Rightarrow> string" where
  "replaceCaret s = concat (map (\<lambda>c. if c = CHR ''^'' then ''**'' else [c]) s)"

text \<open>
  \<^verbatim>\<open>Object.values(parameters)\<close> lists the parameters in insertion order: a parameter
  set is the list of its parameters. \<^verbatim>\<open>numberToString\<close> is the conversion of a number
  to a string that a template literal performs, a function of the language.
\<close>

type_synonym ParameterSet = "Parameter list"

definition substituteParameters :: "(float64 \<Rightarrow> string) \<Rightarrow> string \<Rightarrow> ParameterSet \<Rightarrow> string" where
  "substituteParameters numberToString expression parameters =
     fold (\<lambda>param result.
             replaceAllWord (name param) (''('' @ numberToString (value param) @ '')'') result)
       parameters expression"

text \<open>
  Identifiers of an expression, for stating what a substitution leaves alone: a string of
  word characters that is not empty, and whether a string ends with a word character.
\<close>

definition wordString :: "string \<Rightarrow> bool" where
  "wordString w = (w \<noteq> [] \<and> list_all isWordChar w)"

definition endsWithWord :: "string \<Rightarrow> bool" where
  "endsWithWord s = (s \<noteq> [] \<and> isWordChar (last s))"

text \<open>
  The state of a left-to-right search after a prefix: whether the last character seen is
  a word character.
\<close>

definition endsW :: "bool \<Rightarrow> string \<Rightarrow> bool" where
  "endsW pw s = (if s = [] then pw else isWordChar (last s))"

section \<open>Custom functions (potentials.ts, tdse-solver.ts)\<close>

text \<open>
  \<^verbatim>\<open>new Function('Math', 'return ' + e)(Math)\<close> runs the interpreter of the language on
  a string: it throws (a syntax error, a reference to a name that is not defined), or it
  returns a number, or it returns something else. The interpreter is a parameter
  \<^verbatim>\<open>evaluate\<close> of the functions below.
\<close>

datatype jsResult = JSThrows | JSOther | JSNumber float64

definition replaceFunctions :: "string list \<Rightarrow> string \<Rightarrow> string" where
  "replaceFunctions fs s = fold (\<lambda>f e. replaceAllCall f (''Math.'' @ f @ ''('') e) fs s"

definition replaceConstants :: "string \<Rightarrow> string" where
  "replaceConstants s = replaceAllWord ''e'' ''Math.E'' (replaceAllWordIgnoreCase ''pi'' ''Math.PI'' s)"

text \<open>The test \<^verbatim>\<open>/^[\d\s\+\-\*\/\.\(\)\w\^\s]*$/\<close>.\<close>

definition safeCharacters :: "string \<Rightarrow> bool" where
  "safeCharacters s =
     list_all (\<lambda>c. isDigit c \<or> isSpace c \<or> c \<in> set ''+-*/.()^'' \<or> isWordChar c) s"

text \<open>The function \<^verbatim>\<open>safeEval\<close> inside \<^verbatim>\<open>createCustomFunctionPotential\<close>.\<close>

definition potentialSafeEval ::
  "(string \<Rightarrow> jsResult) \<Rightarrow> (float64 \<Rightarrow> string) \<Rightarrow> ParameterSet \<Rightarrow> string \<Rightarrow> float64
   \<Rightarrow> error + float64" where
  "potentialSafeEval evaluate numberToString parameters expr xVal =
     (if expr = [] \<or> trim expr = [] then Inl EvalError
      else let e1 = substituteParameters numberToString expr parameters;
               e2 = replaceAllWord ''x'' (''('' @ numberToString xVal @ '')'') e1;
               e3 = replaceCaret e2;
               e4 = replaceFunctions [''sin'', ''cos'', ''tan'', ''exp'', ''sqrt'', ''abs'', ''log''] e3;
               e5 = replaceAllCall ''ln'' ''Math.log('' e4;
               e6 = replaceFunctions [''sinh'', ''cosh'', ''tanh''] e5;
               evalExpr = replaceConstants e6
           in if \<not> safeCharacters evalExpr then Inl EvalError
              else (case evaluate evalExpr of
                      JSNumber r \<Rightarrow> if isFinite r then Inr r else Inl EvalError
                    | _ \<Rightarrow> Inl EvalError))"

text \<open>
  The loop of \<^verbatim>\<open>createCustomFunctionPotential\<close> rethrows the first failure, which ends
  the loop and the function.
\<close>

definition createCustomFunctionPotential ::
  "(string \<Rightarrow> jsResult) \<Rightarrow> (float64 \<Rightarrow> string) \<Rightarrow> float64 list \<Rightarrow> string \<Rightarrow> ParameterSet
   \<Rightarrow> error + float64 list" where
  "createCustomFunctionPotential evaluate numberToString xs functionString parameters =
     fold (\<lambda>i acc. case acc of
               Inl e \<Rightarrow> Inl e
             | Inr V \<Rightarrow>
                 (case potentialSafeEval evaluate numberToString parameters functionString (rd xs i) of
                    Inl e \<Rightarrow> Inl PotentialError
                  | Inr v \<Rightarrow> Inr (V[i := v])))
       [0..<length xs] (Inr (replicate (length xs) (Fin 0)))"

datatype PotentialType = Free | Barrier | Well | Harmonic | CustomFunction | CustomDraw

record PotentialConfig =
  type :: PotentialType
  v0 :: "float64 option"
  x0 :: "float64 option"
  width :: "float64 option"
  omega :: "float64 option"
  customFunction :: "string option"
  customPoints :: "(real \<times> real) list option"

definition orDefault :: "float64 option \<Rightarrow> float64 \<Rightarrow> float64" where
  "orDefault v d = (case v of None \<Rightarrow> d | Some w \<Rightarrow> w)"

definition generatePotential ::
  "(string \<Rightarrow> jsResult) \<Rightarrow> (float64 \<Rightarrow> string) \<Rightarrow> float64 list \<Rightarrow> PotentialConfig \<Rightarrow> float64
   \<Rightarrow> ParameterSet \<Rightarrow> error + float64 list" where
  "generatePotential evaluate numberToString xs config m parameters =
     (case type config of
        Free \<Rightarrow> Inr (createFreePotential xs)
      | Barrier \<Rightarrow> Inr (createBarrierPotential xs (orDefault (v0 config) (Fin 5))
                          (orDefault (x0 config) (Fin 0)) (orDefault (width config) (Fin 2)))
      | Well \<Rightarrow> Inr (createWellPotential xs (orDefault (v0 config) (Fin 5))
                       (orDefault (x0 config) (Fin 0)) (orDefault (width config) (Fin 2)))
      | Harmonic \<Rightarrow> Inr (createHarmonicPotential xs m (orDefault (omega config) (Fin 1))
                           (orDefault (x0 config) (Fin 0)))
      | CustomFunction \<Rightarrow>
          (case customFunction config of
             None \<Rightarrow> Inl PotentialError
           | Some f \<Rightarrow> if f = [] then Inl PotentialError
                       else createCustomFunctionPotential evaluate numberToString xs f parameters)
      | CustomDraw \<Rightarrow>
          (case customPoints config of
             None \<Rightarrow> Inr (createFreePotential xs)
           | Some ps \<Rightarrow> if ps = [] then Inr (createFreePotential xs)
                        else Inr (createDrawnPotential xs ps)))"

text \<open>
  The function \<^verbatim>\<open>safeEval\<close> inside \<^verbatim>\<open>parseComplexFunction\<close> of tdse-solver.ts, the
  one \<^verbatim>\<open>createCustomWavefunction\<close> calls: an empty expression is zero, and there is no
  test of the characters.
\<close>

definition wavefunctionSafeEval ::
  "(string \<Rightarrow> jsResult) \<Rightarrow> (float64 \<Rightarrow> string) \<Rightarrow> ParameterSet \<Rightarrow> string \<Rightarrow> float64
   \<Rightarrow> float64 \<Rightarrow> error + float64" where
  "wavefunctionSafeEval evaluate numberToString parameters expr xVal tVal =
     (if expr = [] \<or> trim expr = [] then Inr (Fin 0)
      else let e1 = substituteParameters numberToString expr parameters;
               e2 = replaceAllWord ''x'' (''('' @ numberToString xVal @ '')'') e1;
               e3 = replaceAllWord ''t'' (''('' @ numberToString tVal @ '')'') e2;
               e4 = replaceAllWord ''i'' ''(1)'' e3;
               e5 = replaceCaret e4;
               e6 = replaceFunctions [''sin'', ''cos'', ''tan'', ''sinh'', ''cosh'', ''tanh'',
                      ''exp'', ''sqrt'', ''abs'', ''log''] e5;
               e7 = replaceAllCall ''ln'' ''Math.log('' e6;
               evalExpr = replaceConstants e7
           in (case evaluate evalExpr of
                 JSNumber r \<Rightarrow> if isFinite r then Inr r else Inl EvalError
               | _ \<Rightarrow> Inl EvalError))"

definition parseComplexFunction ::
  "(string \<Rightarrow> jsResult) \<Rightarrow> (float64 \<Rightarrow> string) \<Rightarrow> string \<Rightarrow> string \<Rightarrow> float64 \<Rightarrow> float64
   \<Rightarrow> ParameterSet \<Rightarrow> error + float64 \<times> float64" where
  "parseComplexFunction evaluate numberToString realExpr imagExpr xv tv parameters =
     (case (if trim realExpr \<noteq> []
            then wavefunctionSafeEval evaluate numberToString parameters realExpr xv tv
            else Inr (Fin 0)) of
        Inl e \<Rightarrow> Inl e
      | Inr re \<Rightarrow>
          (case (if trim imagExpr \<noteq> []
                 then wavefunctionSafeEval evaluate numberToString parameters imagExpr xv tv
                 else Inr (Fin 0)) of
             Inl e \<Rightarrow> Inl e
           | Inr im \<Rightarrow> Inr (re, im)))"

text \<open>
  \<^verbatim>\<open>createCustomWavefunction\<close> catches the failure of a grid point and stores zero
  there; it divides by the norm only when the norm is positive.
\<close>

definition customSamples ::
  "(string \<Rightarrow> jsResult) \<Rightarrow> (float64 \<Rightarrow> string) \<Rightarrow> TDSESolver \<Rightarrow> string \<Rightarrow> string
   \<Rightarrow> ParameterSet \<Rightarrow> WavefunctionState" where
  "customSamples evaluate numberToString solver realExpr imagExpr parameters =
     fold (\<lambda>i st.
             case parseComplexFunction evaluate numberToString realExpr imagExpr (rd (x solver) i)
                    (Fin 0) parameters of
               Inr (re, im) \<Rightarrow> (st\<lparr>real' := (real' st)[i := re]\<rparr>)\<lparr>imag := (imag st)[i := im]\<rparr>
             | Inl e \<Rightarrow> (st\<lparr>real' := (real' st)[i := Fin 0]\<rparr>)\<lparr>imag := (imag st)[i := Fin 0]\<rparr>)
       [0..<length (x solver)]
       \<lparr>real' = replicate (length (x solver)) (Fin 0),
        imag = replicate (length (x solver)) (Fin 0), time = Fin 0\<rparr>"

definition createCustomWavefunction ::
  "(string \<Rightarrow> jsResult) \<Rightarrow> (float64 \<Rightarrow> string) \<Rightarrow> TDSESolver \<Rightarrow> string \<Rightarrow> string
   \<Rightarrow> ParameterSet \<Rightarrow> error + WavefunctionState" where
  "createCustomWavefunction evaluate numberToString solver realExpr imagExpr parameters =
     (let n = length (x solver);
          state = customSamples evaluate numberToString solver realExpr imagExpr parameters;
          norm' = fsqrt (rmul (sumSquares n (real' state) (imag state)) (dx solver))
      in Inr (if fgt norm' (Fin 0) then divideBy n norm' state else state))"

section \<open>Conditions on solvers, states and transforms\<close>

text \<open>
  The vocabulary of the properties below. An array is finite when all its entries are;
  two arrays fit a grid of size \<^verbatim>\<open>n\<close> when both have that length and are finite. The
  energy of two such arrays is the sum of the squares of their entries, as a real number:
  what the loop of \<^verbatim>\<open>normalize\<close> computes when no square and no partial sum leaves
  the range of the doubles.
\<close>

definition allFinite :: "float64 list \<Rightarrow> bool" where
  "allFinite xs = list_all isFinite xs"

definition finiteValue :: "float64 \<Rightarrow> real" where
  "finiteValue a = (case a of Fin r \<Rightarrow> r | _ \<Rightarrow> 0)"







text \<open>
  The operators of a solver are finite when its four operator arrays have the grid size
  and finite entries, as after the constructor; they are phases when every entry pair is
  the cosine and sine of a real number, as after \<^verbatim>\<open>setPotential\<close> with a finite
  potential.
\<close>

definition operatorsFinite :: "TDSESolver \<Rightarrow> bool" where
  "operatorsFinite s =
     (length (expVhalf_real s) = gridSize (params s) \<and> length (expVhalf_imag s) = gridSize (params s)
      \<and> length (expT_real s) = gridSize (params s) \<and> length (expT_imag s) = gridSize (params s)
      \<and> allFinite (expVhalf_real s) \<and> allFinite (expVhalf_imag s)
      \<and> allFinite (expT_real s) \<and> allFinite (expT_imag s))"




section \<open>Loops and arrays\<close>

lemma effectiveGridSize_ge: "g \<le> effectiveGridSize g"
proof (cases "g = 0")
  case True then show ?thesis by (simp add: effectiveGridSize_def)
next
  case False
  then have pos: "0 < real g" by simp
  have "log 2 (real g) \<le> real_of_int \<lceil>log 2 (real g)\<rceil>" by (rule le_of_int_ceiling)
  also have "\<dots> \<le> real (nat \<lceil>log 2 (real g)\<rceil>)" by simp
  finally have "log 2 (real g) \<le> real (nat \<lceil>log 2 (real g)\<rceil>)" .
  then have "real g \<le> 2 powr real (nat \<lceil>log 2 (real g)\<rceil>)"
    using pos log_le_iff [of 2 "real g" "real (nat \<lceil>log 2 (real g)\<rceil>)"] by simp
  then have "real g \<le> real (2 ^ nat \<lceil>log 2 (real g)\<rceil>)"
    by (simp add: powr_realpow)
  then show ?thesis using False unfolding effectiveGridSize_def by (simp only: of_nat_le_iff if_False)
qed

lemma effectiveGridSize_least:
  assumes "g \<le> 2 ^ e"
  shows "effectiveGridSize g \<le> 2 ^ e"
proof (cases "g = 0")
  case True then show ?thesis by (simp add: effectiveGridSize_def)
next
  case False
  then have pos: "0 < real g" by simp
  have "real g \<le> 2 powr real e"
    using assms by (metis of_nat_le_iff of_nat_numeral of_nat_power powr_realpow zero_less_numeral)
  then have "log 2 (real g) \<le> real e"
    using pos log_le_iff [of 2 "real g" "real e"] by simp
  then have "log 2 (real g) \<le> of_int (int e)" by simp
  then have "\<lceil>log 2 (real g)\<rceil> \<le> int e" by (rule ceiling_le)
  then have "nat \<lceil>log 2 (real g)\<rceil> \<le> e" by linarith
  then have "(2::nat) ^ nat \<lceil>log 2 (real g)\<rceil> \<le> 2 ^ e" by (simp add: power_increasing)
  then show ?thesis using False by (simp add: effectiveGridSize_def)
qed


lemma effectiveGridSize_fix: "effectiveGridSize (2 ^ e) = 2 ^ e"
  using effectiveGridSize_least [of "2 ^ e" e] effectiveGridSize_ge [of "2 ^ e"] by simp


lemma fold_upt_invariant:
  assumes "P 0 a" and "\<And>i b. i < n \<Longrightarrow> P i b \<Longrightarrow> P (Suc i) (F i b)"
  shows "P n (fold F [0..<n] a)"
  using assms
proof (induction n)
  case 0
  then show ?case by simp
next
  case (Suc n)
  have "P n (fold F [0..<n] a)"
    by (rule Suc.IH) (use Suc.prems in auto)
  then show ?case using Suc.prems(2) [of n] by simp
qed

lemma length_fold_update [simp]:
  "length (fold (\<lambda>i a. a[i := f i]) js a) = length a"
  by (induction js arbitrary: a) auto

lemma nth_fold_update:
  "j < length a \<Longrightarrow> fold (\<lambda>i a. a[i := f i]) js a ! j = (if j \<in> set js then f j else a ! j)"
  by (induction js arbitrary: a) (auto simp: nth_list_update)

lemma rd_nth [simp]: "i < length xs \<Longrightarrow> rd xs i = xs ! i"
  by (simp add: rd_def)

lemma length_interleave [simp]: "length (interleave n re im) = 2 * n"
proof -
  have "length (fold (\<lambda>i a. (a[2 * i := rd re i])[2 * i + 1 := rd im i]) js a) = length a" for js a
    by (induction js arbitrary: a) auto
  then show ?thesis by (simp add: interleave_def)
qed



lemma length_evens [simp]: "length (evens n c) = n"
  by (simp add: evens_def)

lemma length_odds [simp]: "length (odds n c) = n"
  by (simp add: odds_def)




lemma updateKineticOperator_frame:
  "params (updateKineticOperator s) = params s \<and> x (updateKineticOperator s) = x s
   \<and> dx (updateKineticOperator s) = dx s \<and> k (updateKineticOperator s) = k s
   \<and> dk (updateKineticOperator s) = dk s
   \<and> expVhalf_real (updateKineticOperator s) = expVhalf_real s
   \<and> expVhalf_imag (updateKineticOperator s) = expVhalf_imag s
   \<and> potential (updateKineticOperator s) = potential s
   \<and> length (expT_real (updateKineticOperator s)) = length (expT_real s)
   \<and> length (expT_imag (updateKineticOperator s)) = length (expT_imag s)"
  unfolding updateKineticOperator_def
  by (rule fold_upt_invariant [where P = "\<lambda>i t. params t = params s \<and> x t = x s
   \<and> dx t = dx s \<and> k t = k s \<and> dk t = dk s
   \<and> expVhalf_real t = expVhalf_real s \<and> expVhalf_imag t = expVhalf_imag s
   \<and> potential t = potential s
   \<and> length (expT_real t) = length (expT_real s)
   \<and> length (expT_imag t) = length (expT_imag s)"]) simp_all

lemma updateKineticOperator_nth:
  assumes "j < gridSize (params s)" "gridSize (params s) \<le> length (expT_real s)"
    "gridSize (params s) \<le> length (expT_imag s)"
  shows "expT_real (updateKineticOperator s) ! j = fcos (kineticPhase (params s) (rd (k s) j))
       \<and> expT_imag (updateKineticOperator s) ! j = fsin (kineticPhase (params s) (rd (k s) j))"
proof -
  have "params (updateKineticOperator s) = params s \<and> k (updateKineticOperator s) = k s
     \<and> length (expT_real (updateKineticOperator s)) = length (expT_real s)
     \<and> length (expT_imag (updateKineticOperator s)) = length (expT_imag s)
     \<and> (\<forall>j < gridSize (params s). expT_real (updateKineticOperator s) ! j = fcos (kineticPhase (params s) (rd (k s) j))
          \<and> expT_imag (updateKineticOperator s) ! j = fsin (kineticPhase (params s) (rd (k s) j)))"
    unfolding updateKineticOperator_def
    by (rule fold_upt_invariant [where P = "\<lambda>i t. params t = params s \<and> k t = k s
     \<and> length (expT_real t) = length (expT_real s)
     \<and> length (expT_imag t) = length (expT_imag s)
     \<and> (\<forall>j < i. expT_real t ! j = fcos (kineticPhase (params s) (rd (k s) j))
          \<and> expT_imag t ! j = fsin (kineticPhase (params s) (rd (k s) j)))"])
      (use assms in \<open>auto simp: nth_list_update less_Suc_eq\<close>)
  then show ?thesis using assms by simp
qed

lemma constructor_fields:
  "params (TDSESolver_setup p) = p\<lparr>gridSize := effectiveGridSize (gridSize p)\<rparr>"
  "length (x (TDSESolver_setup p)) = effectiveGridSize (gridSize p)"
  "length (k (TDSESolver_setup p)) = effectiveGridSize (gridSize p)"
  "length (expT_real (TDSESolver_setup p)) = effectiveGridSize (gridSize p)"
  "length (expT_imag (TDSESolver_setup p)) = effectiveGridSize (gridSize p)"
  "expVhalf_real (TDSESolver_setup p) = replicate (effectiveGridSize (gridSize p)) (Fin 0)"
  "expVhalf_imag (TDSESolver_setup p) = replicate (effectiveGridSize (gridSize p)) (Fin 0)"
  "potential (TDSESolver_setup p) = replicate (effectiveGridSize (gridSize p)) (Fin 0)"
  "dx (TDSESolver_setup p) = fdiv (fsub (xMax p) (xMin p)) (Fin (real (effectiveGridSize (gridSize p))))"
  by (simp_all add: TDSESolver_setup_def Let_def updateKineticOperator_frame)




text \<open>The range of the doubles.\<close>

lemma thresholds:
  "0 < underflowThreshold" "underflowThreshold < 1" "1 < overflowThreshold"
  "underflowThreshold < overflowThreshold"
  by (simp_all add: underflowThreshold_def overflowThreshold_def)

lemma fromReal_zero [simp]: "fromReal 0 = Fin 0"
  using thresholds by (simp add: fromReal_def)

lemma fromReal_normal:
  "underflowThreshold < \<bar>r\<bar> \<Longrightarrow> \<bar>r\<bar> < overflowThreshold \<Longrightarrow> fromReal r = Fin r"
  by (auto simp: fromReal_def)


lemma fromReal_underflow: "\<bar>r\<bar> \<le> underflowThreshold \<Longrightarrow> fromReal r = Fin 0"
  using thresholds by (auto simp: fromReal_def)


lemma fromReal_magnitude:
  assumes "\<bar>r\<bar> < overflowThreshold"
  shows "\<exists>y. fromReal r = Fin y \<and> \<bar>y\<bar> \<le> \<bar>r\<bar> \<and> \<bar>r\<bar> - underflowThreshold \<le> \<bar>y\<bar>"
proof (cases "\<bar>r\<bar> \<le> underflowThreshold")
  case True
  then have "fromReal r = Fin 0"
    by (rule fromReal_underflow)
  then show ?thesis
    using True by simp
next
  case False
  then have "fromReal r = Fin r"
    using assms by (intro fromReal_normal) simp_all
  then show ?thesis
    using thresholds(1) by simp
qed

lemma toRange_simps [simp]:
  "toRange (Fin r) = fromReal r" "toRange PosInf = PosInf" "toRange NegInf = NegInf"
  "toRange NaN = NaN"
  by (simp_all add: toRange_def)

lemma ranged_finite [simp]:
  "radd (Fin a) (Fin b) = fromReal (a + b)" "rsub (Fin a) (Fin b) = fromReal (a - b)"
  "rmul (Fin a) (Fin b) = fromReal (a * b)"
  "b \<noteq> 0 \<Longrightarrow> rdiv (Fin a) (Fin b) = fromReal (a / b)"
  by (simp_all add: radd_def rsub_def rmul_def rdiv_def fsub_def)

lemma ranged_zero [simp]:
  "rmul (Fin 0) (Fin b) = Fin 0" "rmul (Fin a) (Fin 0) = Fin 0"
  "radd (Fin 0) (Fin 0) = Fin 0" "rsub (Fin 0) (Fin 0) = Fin 0"
  "b \<noteq> 0 \<Longrightarrow> rdiv (Fin 0) (Fin b) = Fin 0"
  by simp_all

text \<open>The constructor of the transform objects, and with it the solver's constructor.\<close>

lemma toInt32_small: "v < 2 ^ 31 \<Longrightarrow> toInt32 v = int v"
proof -
  assume a: "v < 2 ^ 31"
  then have "int v < int (2 ^ 31)"
    by (simp only: of_nat_less_iff)
  then have "int v < 2 ^ 31"
    by simp
  then have "int v mod 2 ^ 32 = int v" "\<not> 2 ^ 31 \<le> int v"
    by simp_all
  then show ?thesis
    by (simp add: toInt32_def)
qed

lemma power_and_pred: "and ((2::int) ^ e) (2 ^ e - 1) = 0"
proof -
  have "\<not> bit ((2::int) ^ e - 1) e"
    by (simp add: bit_simps flip: mask_eq_exp_minus_1)
  then have "and ((2::int) ^ e - 1) (2 ^ e) = 0"
    by (simp add: and_exp_eq_0_iff_not_bit)
  then show ?thesis
    by (simp add: and.commute)
qed

lemma FFT_constructor_power:
  assumes "1 \<le> e" and "e \<le> 30"
  shows "FFT_constructor (2 ^ e) = Inr (2 ^ e)"
proof -
  have "(2::nat) ^ e \<le> 2 ^ 30"
    using assms(2) by (intro power_increasing) simp_all
  then have "(2::nat) ^ e < 2 ^ 31"
    by simp
  then have t: "toInt32 (2 ^ e) = 2 ^ e"
    by (simp add: toInt32_small)
  have "(2::int) ^ 1 \<le> 2 ^ e"
    using assms(1) by (intro power_increasing) simp_all
  then have big: "\<not> (2::int) ^ e \<le> 1"
    by simp
  show ?thesis
    unfolding FFT_constructor_def Let_def t using big power_and_pred [of e] by simp
qed



lemma constructor_result:
  "TDSESolver_constructor p =
     (case FFT_constructor (effectiveGridSize (gridSize p)) of
        Inl e \<Rightarrow> Inl e | Inr fft \<Rightarrow> Inr (TDSESolver_setup p))"
  by (simp add: TDSESolver_constructor_def Let_def split: sum.split)

subsection \<open>Drawn potentials\<close>

lemma fle_Fin [simp]: "fle (Fin a) (Fin b) = (a \<le> b)"
  by (auto simp: fle_def)

lemma fge_Fin [simp]: "fge (Fin a) (Fin b) = (b \<le> a)"
  by (simp add: fge_def)

lemma findSegment_between:
  assumes "sorted (map fst sp)" and "j + 1 < length sp"
    and "fst (sp ! j) < xi" and "xi < fst (sp ! (j + 1))"
  shows "findSegment sp (Fin xi) = (j, j + 1)"
proof -
  let ?P = "\<lambda>j. fge (Fin xi) (Fin (fst (sp ! j))) \<and> fle (Fin xi) (Fin (fst (sp ! (j + 1))))"
  have before: "\<not> ?P j'" if "j' < j" for j'
  proof -
    have "fst (sp ! (j' + 1)) \<le> fst (sp ! j)"
      using assms(1,2) that sorted_nth_mono [of "map fst sp" "j' + 1" j] by simp
    then show ?thesis using assms(3) by simp
  qed
  have "find ?P [0..<length sp - 1] = Some j"
    unfolding find_Some_iff
    using assms before by (intro exI [of _ j]) auto
  then show ?thesis by (simp add: findSegment_def)
qed

lemma drawnValue_left:
  "xi \<le> fst (sp ! 0) \<Longrightarrow> drawnValue sp (Fin xi) = Fin (snd (sp ! 0))"
  by (simp add: drawnValue_def split: prod.split)

lemma drawnValue_right:
  "fst (sp ! 0) < xi \<Longrightarrow> fst (sp ! (length sp - 1)) \<le> xi \<Longrightarrow>
   drawnValue sp (Fin xi) = Fin (snd (sp ! (length sp - 1)))"
  by (simp add: drawnValue_def split: prod.split)

lemma drawnValue_between:
  assumes "sorted (map fst sp)" and "j + 1 < length sp"
    and "fst (sp ! j) < xi" and "xi < fst (sp ! (j + 1))"
  shows "drawnValue sp (Fin xi) =
    Fin (snd (sp ! j) + (xi - fst (sp ! j)) / (fst (sp ! (j + 1)) - fst (sp ! j))
           * (snd (sp ! (j + 1)) - snd (sp ! j)))"
proof -
  have len: "0 < length sp" "j < length sp" "length sp - 1 < length sp" "j + 1 \<le> length sp - 1"
    using assms(2) by auto
  have lo: "fst (sp ! 0) \<le> fst (sp ! j)"
    using assms(1) len sorted_nth_mono [of "map fst sp" 0 j] by simp
  have hi: "fst (sp ! (j + 1)) \<le> fst (sp ! (length sp - 1))"
    using assms(1,2) len sorted_nth_mono [of "map fst sp" "j + 1" "length sp - 1"] by simp
  show ?thesis
    using lo hi assms(3,4) findSegment_between [OF assms]
    by (simp add: drawnValue_def fsub_def)
qed

lemma createDrawnPotential_nth:
  "points \<noteq> [] \<Longrightarrow> i < length xs \<Longrightarrow>
   createDrawnPotential xs points ! i = drawnValue (sort_key fst points) (xs ! i)"
  by (simp add: createDrawnPotential_def Let_def nth_fold_update)

subsection \<open>Whole-word replacement\<close>

lemma replaceWord_unfold:
  "s \<noteq> [] \<Longrightarrow> replaceWord ci nm r pw s =
     (if wordAt ci nm pw s
      then r @ replaceWord ci nm r (isWordChar (s ! (length nm - 1))) (drop (length nm) s)
      else hd s # replaceWord ci nm r (isWordChar (hd s)) (tl s))"
  by (cases s) simp_all

lemma wordString_last: "wordString nm \<Longrightarrow> isWordChar (last nm)"
  by (simp add: wordString_def list_all_iff)

lemma wordAt_append:
  assumes nm: "wordString nm" and ne: "pre \<noteq> []"
    and split: "\<not> startsWithWord rest \<or> \<not> isWordChar (last pre)"
  shows "wordAt False nm pw (pre @ rest) = wordAt False nm pw pre"
proof -
  have hd: "hd (pre @ rest) = hd pre"
    using ne by simp
  consider (lt) "length nm < length pre" | (eq) "length nm = length pre" | (gt) "length pre < length nm"
    by linarith
  then show ?thesis
  proof cases
    case lt
    then have d: "drop (length nm) (pre @ rest) = drop (length nm) pre @ rest"
      and dne: "drop (length nm) pre \<noteq> []"
      and t: "take (length nm) (pre @ rest) = take (length nm) pre"
      by simp_all
    have "length nm - 1 < length pre"
      using lt by simp
    then have n: "(pre @ rest) ! (length nm - 1) = pre ! (length nm - 1)"
      by (simp add: nth_append)
    have "startsWithWord (drop (length nm) pre @ rest) = startsWithWord (drop (length nm) pre)"
      using dne by (cases "drop (length nm) pre") (simp_all add: startsWithWord_def)
    then show ?thesis
      using lt n by (simp add: wordAt_def hd d t)
  next
    case eq
    then have d: "drop (length nm) (pre @ rest) = rest" "drop (length nm) pre = []"
      and t: "take (length nm) (pre @ rest) = pre" "take (length nm) pre = pre"
      by simp_all
    have n: "(pre @ rest) ! (length nm - 1) = pre ! (length nm - 1)"
      using eq ne by (simp add: nth_append)
    show ?thesis
    proof (cases "nm = pre")
      case True
      then have "\<not> startsWithWord rest"
        using split wordString_last [OF nm] by auto
      then show ?thesis
        using eq n by (simp add: wordAt_def hd d t startsWithWord_def)
    next
      case False
      then show ?thesis
        using eq by (auto simp: wordAt_def t)
    qed
  next
    case gt
    have "take (length nm) (pre @ rest) \<noteq> nm"
    proof
      assume "take (length nm) (pre @ rest) = nm"
      then have nmeq: "nm = pre @ take (length nm - length pre) rest"
        using gt by simp
      have all: "list_all isWordChar nm"
        using nm by (simp add: wordString_def)
      have allp: "list_all isWordChar pre" and allr: "list_all isWordChar (take (length nm - length pre) rest)"
        using all by (subst (asm) nmeq, simp)+
      have a: "isWordChar (last pre)"
        using allp ne by (simp add: list_all_iff)
      have "take (length nm - length pre) rest \<noteq> []"
        using nmeq gt by auto
      then obtain d ds where rest: "rest = d # ds"
        by (cases rest) auto
      have "0 < length nm - length pre"
        using gt by simp
      then have "take (length nm - length pre) rest = d # take (length nm - length pre - 1) ds"
        unfolding rest by (cases "length nm - length pre") simp_all
      with allr have "isWordChar d"
        by simp
      then have "startsWithWord rest"
        by (simp add: rest startsWithWord_def)
      with a split show False
        by simp
    qed
    then show ?thesis
      using gt by (simp add: wordAt_def)
  qed
qed

lemma replaceWord_append:
  assumes nm: "wordString nm"
  shows "\<not> startsWithWord rest \<or> \<not> endsW pw pre \<Longrightarrow>
    replaceWord False nm r pw (pre @ rest) = replaceWord False nm r pw pre @ replaceWord False nm r (endsW pw pre) rest"
proof (induction pre arbitrary: pw rule: length_induct)
  case (1 pre)
  show ?case
  proof (cases "pre = []")
    case True
    then show ?thesis by (simp add: endsW_def)
  next
    case ne: False
    then have ne2: "pre @ rest \<noteq> []"
      by simp
    have split: "\<not> startsWithWord rest \<or> \<not> isWordChar (last pre)"
      using "1.prems" ne by (simp add: endsW_def)
    note W = wordAt_append [OF nm ne split, of pw]
    have lastnm: "isWordChar (last nm)" and nmne: "nm \<noteq> []"
      using nm by (simp_all add: wordString_def list_all_iff)
    show ?thesis
    proof (cases "wordAt False nm pw pre")
      case True
      then have len: "length nm \<le> length pre" and tk: "take (length nm) pre = nm"
        by (simp_all add: wordAt_def)
      let ?d = "drop (length nm) pre"
      have dr: "drop (length nm) (pre @ rest) = ?d @ rest"
        using len by simp
      have pos: "length nm - 1 < length nm"
        using nmne by simp
      have nth2: "pre ! (length nm - 1) = last nm"
        using tk pos nmne by (metis last_conv_nth nth_take)
      have nth1: "(pre @ rest) ! (length nm - 1) = last nm"
        using nth2 pos len by (simp add: nth_append)
      have shorter: "length ?d < length pre"
        using ne nmne by simp
      have e: "endsW True ?d = endsW pw pre"
      proof (cases "?d = []")
        case True
        then have "pre = nm" using tk len by (metis append_Nil2 append_take_drop_id)
        then show ?thesis using True ne lastnm by (simp add: endsW_def)
      next
        case False
        then show ?thesis using ne len by (simp add: endsW_def)
      qed
      have cond: "\<not> startsWithWord rest \<or> \<not> endsW True ?d"
        using "1.prems" e by simp
      have "replaceWord False nm r True (?d @ rest)
          = replaceWord False nm r True ?d @ replaceWord False nm r (endsW True ?d) rest"
        using "1.IH" shorter cond by blast
      then show ?thesis
        unfolding replaceWord_unfold [OF ne] replaceWord_unfold [OF ne2] W
        using True dr nth1 nth2 lastnm e by simp
    next
      case False
      have e: "endsW (isWordChar (hd pre)) (tl pre) = endsW pw pre"
        using ne by (cases pre) (simp_all add: endsW_def)
      have cond: "\<not> startsWithWord rest \<or> \<not> endsW (isWordChar (hd pre)) (tl pre)"
        using "1.prems" e by simp
      have shorter: "length (tl pre) < length pre"
        using ne by simp
      have "replaceWord False nm r (isWordChar (hd pre)) (tl pre @ rest)
          = replaceWord False nm r (isWordChar (hd pre)) (tl pre)
            @ replaceWord False nm r (endsW (isWordChar (hd pre)) (tl pre)) rest"
        using "1.IH" shorter cond by blast
      then show ?thesis
        unfolding replaceWord_unfold [OF ne] replaceWord_unfold [OF ne2] W
        using False ne e by simp
    qed
  qed
qed


lemma replaceWord_word_run:
  "list_all isWordChar u \<Longrightarrow> replaceWord False nm r True u = u"
  by (induction u) (simp_all add: wordAt_def)

lemma replaceWord_other_word:
  assumes "wordString nm" and "wordString w" and "w \<noteq> nm"
  shows "replaceWord False nm r False w = w"
proof -
  have ne: "w \<noteq> []" and all: "list_all isWordChar w"
    using assms(2) by (simp_all add: wordString_def)
  have "\<not> wordAt False nm False w"
  proof
    assume m: "wordAt False nm False w"
    then have len: "length nm \<le> length w" and tk: "take (length nm) w = nm" and nmne: "nm \<noteq> []"
      and b: "isWordChar (w ! (length nm - 1)) \<noteq> startsWithWord (drop (length nm) w)"
      by (simp_all add: wordAt_def)
    have "length nm \<noteq> length w"
      using tk assms(3) by auto
    with len have lt: "length nm < length w"
      by simp
    then obtain d ds where d: "drop (length nm) w = d # ds"
      by (cases "drop (length nm) w") simp_all
    then have "d \<in> set w"
      by (metis in_set_dropD list.set_intros(1))
    then have "startsWithWord (drop (length nm) w)"
      using all by (simp add: d startsWithWord_def list_all_iff)
    moreover have "isWordChar (w ! (length nm - 1))"
      using all lt by (simp add: list_all_length)
    ultimately show False
      using b by simp
  qed
  then have "replaceWord False nm r False w = hd w # replaceWord False nm r (isWordChar (hd w)) (tl w)"
    using ne by (simp add: replaceWord_unfold)
  moreover have "isWordChar (hd w)" "list_all isWordChar (tl w)"
    using ne all by (cases w; simp)+
  ultimately show ?thesis
    using ne by (simp add: replaceWord_word_run)
qed

lemma wordAt_nonword_hd:
  assumes "wordString nm" and "\<not> isWordChar c"
  shows "\<not> wordAt False nm b (c # cs)"
proof
  assume "wordAt False nm b (c # cs)"
  then have ne: "nm \<noteq> []" and t: "take (length nm) (c # cs) = nm"
    by (simp_all add: wordAt_def)
  from ne have "0 < length nm"
    by simp
  then have "hd (take (length nm) (c # cs)) = hd (c # cs)"
    by (rule hd_take)
  then have "hd nm = c"
    using t by simp
  moreover have "isWordChar (hd nm)"
    using assms(1) ne by (cases nm) (simp_all add: wordString_def)
  ultimately show False
    using assms(2) by simp
qed

lemma replaceWord_nonword_start:
  assumes "wordString nm" and "\<not> startsWithWord post"
  shows "replaceWord False nm r pw post = replaceWord False nm r False post"
    and "\<not> startsWithWord (replaceWord False nm r pw post)"
proof -
  have "replaceWord False nm r pw post = replaceWord False nm r False post
      \<and> \<not> startsWithWord (replaceWord False nm r pw post)"
  proof (cases post)
    case Nil
    then show ?thesis by (simp add: startsWithWord_def)
  next
    case (Cons c cs)
    then have c: "\<not> isWordChar c"
      using assms(2) by (simp add: startsWithWord_def)
    have "\<not> wordAt False nm b (c # cs)" for b
      by (rule wordAt_nonword_hd [OF assms(1) c])
    then show ?thesis
      using Cons c by (simp add: startsWithWord_def)
  qed
  then show "replaceWord False nm r pw post = replaceWord False nm r False post"
    and "\<not> startsWithWord (replaceWord False nm r pw post)"
    by blast+
qed

lemma replaceWord_nonword_end:
  assumes "wordString nm" and "\<not> endsWithWord pre"
  shows "\<not> endsWithWord (replaceWord False nm r False pre)"
proof (cases "pre = []")
  case True
  then show ?thesis by (simp add: endsWithWord_def)
next
  case False
  then have pre: "pre = butlast pre @ [last pre]" and c: "\<not> isWordChar (last pre)"
    using assms(2) by (simp_all add: endsWithWord_def)
  have s: "\<not> startsWithWord [last pre]"
    using c by (simp add: startsWithWord_def)
  have "replaceWord False nm r False (butlast pre @ [last pre])
      = replaceWord False nm r False (butlast pre)
        @ replaceWord False nm r (endsW False (butlast pre)) [last pre]"
    using s by (intro replaceWord_append [OF assms(1)]) simp
  moreover have "replaceWord False nm r b [last pre] = [last pre]" for b
    using wordAt_nonword_hd [OF assms(1) c, of b "[]"] by simp
  ultimately have "replaceWord False nm r False pre = replaceWord False nm r False (butlast pre) @ [last pre]"
    using pre by simp
  then show ?thesis
    using c by (simp add: endsWithWord_def)
qed

lemma replaceAllWord_keeps_word:
  assumes "wordString nm" and "wordString w" and "w \<noteq> nm"
    and "\<not> endsWithWord pre" and "\<not> startsWithWord post"
  shows "replaceAllWord nm r (pre @ w @ post) = replaceAllWord nm r pre @ w @ replaceAllWord nm r post"
proof -
  have e: "endsW False pre = False"
    using assms(4) by (auto simp: endsW_def endsWithWord_def)
  have ew: "endsW False w = True"
    using assms(2) by (simp add: endsW_def wordString_last wordString_def)
  have "replaceWord False nm r False (pre @ (w @ post))
      = replaceWord False nm r False pre @ replaceWord False nm r (endsW False pre) (w @ post)"
    by (rule replaceWord_append [OF assms(1)]) (simp add: e)
  moreover have "replaceWord False nm r False (w @ post)
      = replaceWord False nm r False w @ replaceWord False nm r (endsW False w) post"
    by (rule replaceWord_append [OF assms(1)]) (simp add: assms(5))
  ultimately show ?thesis
    unfolding replaceAllWord_def
    using e ew replaceWord_other_word [OF assms(1,2,3)] replaceWord_nonword_start(1) [OF assms(1,5)]
    by simp
qed

lemma substituteParameters_Cons:
  "substituteParameters numStr e (p # ps) =
     substituteParameters numStr (replaceAllWord (name p) (''('' @ numStr (value p) @ '')'') e) ps"
  by (simp add: substituteParameters_def)

subsection \<open>States and initial states\<close>

lemma allFinite_nth: "allFinite xs \<longleftrightarrow> (\<forall>i < length xs. \<exists>r. xs ! i = Fin r)"
proof -
  have "isFinite a \<longleftrightarrow> (\<exists>r. a = Fin r)" for a
    by (cases a) simp_all
  then show ?thesis
    by (simp add: allFinite_def list_all_length)
qed

lemma allFinite_replicate [simp]: "allFinite (replicate n (Fin r))"
  by (simp add: allFinite_def list_all_length)

lemma sumSquares_zero:
  "sumSquares n (replicate n (Fin 0)) (replicate n (Fin 0)) = Fin 0"
  unfolding sumSquares_def
  by (rule fold_upt_invariant [where P = "\<lambda>i acc. acc = Fin 0"]) simp_all

text \<open>Filling the two arrays of a state, and dividing them.\<close>

lemma fill_state:
  "fold (\<lambda>i st. (st\<lparr>real' := (real' st)[i := f i]\<rparr>)\<lparr>imag := (imag st)[i := g i]\<rparr>) js st
   = st\<lparr>real' := fold (\<lambda>i a. a[i := f i]) js (real' st),
        imag := fold (\<lambda>i a. a[i := g i]) js (imag st)\<rparr>"
  by (induction js arbitrary: st) simp_all

lemma fold_update_replicate:
  "fold (\<lambda>i a. a[i := f i]) [0..<n] (replicate n v) = map f [0..<n]"
  by (rule nth_equalityI) (simp_all add: nth_fold_update)


lemma divideBy_fields:
  "time (divideBy n nrm st) = time st
   \<and> length (real' (divideBy n nrm st)) = length (real' st)
   \<and> length (imag (divideBy n nrm st)) = length (imag st)
   \<and> (\<forall>j < length (real' st). real' (divideBy n nrm st) ! j
         = (if j < n then rdiv (real' st ! j) nrm else real' st ! j))
   \<and> (\<forall>j < length (imag st). imag (divideBy n nrm st) ! j
         = (if j < n then rdiv (imag st ! j) nrm else imag st ! j))"
  unfolding divideBy_def
  by (rule fold_upt_invariant [where P = "\<lambda>i t. time t = time st
   \<and> length (real' t) = length (real' st)
   \<and> length (imag t) = length (imag st)
   \<and> (\<forall>j < length (real' st). real' t ! j
         = (if j < i then rdiv (real' st ! j) nrm else real' st ! j))
   \<and> (\<forall>j < length (imag st). imag t ! j
         = (if j < i then rdiv (imag st ! j) nrm else imag st ! j))"])
    (auto simp: nth_list_update less_Suc_eq)

lemma divideBy_map:
  assumes "length (real' st) = n" and "length (imag st) = n"
  shows "divideBy n nrm st = st\<lparr>real' := map (\<lambda>v. rdiv v nrm) (real' st),
                                 imag := map (\<lambda>v. rdiv v nrm) (imag st)\<rparr>"
proof -
  have "real' (divideBy n nrm st) = map (\<lambda>v. rdiv v nrm) (real' st)"
    using divideBy_fields [of n nrm st] assms by (intro nth_equalityI) simp_all
  moreover have "imag (divideBy n nrm st) = map (\<lambda>v. rdiv v nrm) (imag st)"
    using divideBy_fields [of n nrm st] assms by (intro nth_equalityI) simp_all
  moreover have "time (divideBy n nrm st) = time st"
    using divideBy_fields [of n nrm st] by simp
  ultimately show ?thesis
    by (cases st, cases "divideBy n nrm st") simp
qed

lemma divideBy_zero_state:
  "divideBy n (Fin 0) \<lparr>real' = replicate n (Fin 0), imag = replicate n (Fin 0), time = t\<rparr>
   = \<lparr>real' = replicate n NaN, imag = replicate n NaN, time = t\<rparr>"
  by (subst divideBy_map) (simp_all add: rdiv_def finf_def)

lemma constructor_x_nth:
  "i < effectiveGridSize (gridSize p) \<Longrightarrow>
   x (TDSESolver_setup p) ! i =
     fadd (xMin p) (fmul (Fin (real i)) (fdiv (fsub (xMax p) (xMin p)) (Fin (real (effectiveGridSize (gridSize p))))))"
  by (simp add: TDSESolver_setup_def Let_def updateKineticOperator_frame nth_fold_update)


lemma rd_map_Fin [simp]: "i < length xs \<Longrightarrow> rd (map Fin xs) i = Fin (xs ! i)"
  by (simp add: rd_def)

lemma map_upt_replicate:
  "(\<And>i. i < n \<Longrightarrow> f i = v) \<Longrightarrow> map f [0..<n] = replicate n v"
  by (rule nth_equalityI) simp_all

lemma zero_norm: "fsqrt (rmul (sumSquares n (replicate n (Fin 0)) (replicate n (Fin 0))) (Fin d)) = Fin 0"
  by (simp add: sumSquares_zero)

lemma divide_zero_samples:
  assumes "st = \<lparr>real' = replicate n (Fin 0), imag = replicate n (Fin 0), time = Fin 0\<rparr>"
  shows "divideBy n (fsqrt (rmul (sumSquares n (real' st) (imag st)) (Fin d))) st
       = \<lparr>real' = replicate n NaN, imag = replicate n NaN, time = Fin 0\<rparr>"
  unfolding assms by (simp add: zero_norm divideBy_zero_state)

lemma fill_zero:
  assumes "\<And>i. i < n \<Longrightarrow> f i = Fin 0" and "\<And>i. i < n \<Longrightarrow> g i = Fin 0"
  shows "fold (\<lambda>i st. (st\<lparr>real' := (real' st)[i := f i]\<rparr>)\<lparr>imag := (imag st)[i := g i]\<rparr>) [0..<n]
           \<lparr>real' = replicate n (Fin 0), imag = replicate n (Fin 0), time = t\<rparr>
       = \<lparr>real' = replicate n (Fin 0), imag = replicate n (Fin 0), time = t\<rparr>"
proof -
  have "map f [0..<n] = replicate n (Fin 0)" "map g [0..<n] = replicate n (Fin 0)"
    using assms by (simp_all add: map_upt_replicate)
  then show ?thesis
    unfolding fill_state by (simp add: fold_update_replicate)
qed

lemma createPlaneWave_zero_amplitude:
  assumes "x s = map Fin xs" and "dx s = Fin d" and "\<forall>v \<in> set xs. \<bar>c * v\<bar> < overflowThreshold"
  shows "createPlaneWave s (Fin 0) (Fin c)
       = \<lparr>real' = replicate (length xs) NaN, imag = replicate (length xs) NaN, time = Fin 0\<rparr>"
proof -
  have z: "rmul (Fin 0) (fcos (rmul (Fin c) (rd (map Fin xs) i))) = Fin 0"
    "rmul (Fin 0) (fsin (rmul (Fin c) (rd (map Fin xs) i))) = Fin 0" if "i < length xs" for i
  proof -
    have "\<bar>c * (xs ! i)\<bar> < overflowThreshold"
      using that assms(3) by simp
    then obtain y where "fromReal (c * (xs ! i)) = Fin y"
      using fromReal_magnitude by blast
    then show "rmul (Fin 0) (fcos (rmul (Fin c) (rd (map Fin xs) i))) = Fin 0"
      "rmul (Fin 0) (fsin (rmul (Fin c) (rd (map Fin xs) i))) = Fin 0"
      using that by simp_all
  qed
  have raw: "fold (\<lambda>i st.
                    let xv = rd (map Fin xs) i
                    in (st\<lparr>real' := (real' st)[i := rmul (Fin 0) (fcos (rmul (Fin c) xv))]\<rparr>)
                         \<lparr>imag := (imag st)[i := rmul (Fin 0) (fsin (rmul (Fin c) xv))]\<rparr>)
                  [0..<length xs]
                  \<lparr>real' = replicate (length xs) (Fin 0), imag = replicate (length xs) (Fin 0), time = Fin 0\<rparr>
      = \<lparr>real' = replicate (length xs) (Fin 0), imag = replicate (length xs) (Fin 0), time = Fin 0\<rparr>"
    unfolding Let_def by (rule fill_zero) (simp_all only: z)
  show ?thesis
    unfolding createPlaneWave_def assms(1,2) length_map Let_def [of "length xs"]
      Let_def [of "fold _ _ _"] raw Let_def [of "fsqrt _"]
    by (rule divide_zero_samples) simp
qed

lemma createBoundState_outside:
  assumes "x s = map Fin xs" and "dx s = Fin d" and "\<forall>v \<in> set xs. \<not> (0 < v \<and> v < L)"
  shows "createBoundState s nq (Fin L)
       = \<lparr>real' = replicate (length xs) NaN, imag = replicate (length xs) NaN, time = Fin 0\<rparr>"
proof -
  let ?r = "\<lambda>i. if fgt (rd (map Fin xs) i) (Fin 0) \<and> flt (rd (map Fin xs) i) (Fin L)
                 then rmul (fsqrt (rdiv (Fin 2) (Fin L)))
                        (fsin (rdiv (rmul (rmul nq (Fin MathPI)) (rd (map Fin xs) i)) (Fin L)))
                 else Fin 0"
  have shape: "(\<lambda>i st.
                    let xv = rd (map Fin xs) i
                    in if fgt xv (Fin 0) \<and> flt xv (Fin L)
                       then (st\<lparr>real' := (real' st)[i := rmul (fsqrt (rdiv (Fin 2) (Fin L)))
                                                 (fsin (rdiv (rmul (rmul nq (Fin MathPI)) xv) (Fin L)))]\<rparr>)
                              \<lparr>imag := (imag st)[i := Fin 0]\<rparr>
                       else (st\<lparr>real' := (real' st)[i := Fin 0]\<rparr>)
                              \<lparr>imag := (imag st)[i := Fin 0]\<rparr>)
      = (\<lambda>i st. (st\<lparr>real' := (real' st)[i := ?r i]\<rparr>)\<lparr>imag := (imag st)[i := Fin 0]\<rparr>)"
    by (intro ext) (simp add: Let_def)
  have zero: "?r i = Fin 0" if "i < length xs" for i
  proof -
    have "\<not> (0 < xs ! i \<and> xs ! i < L)"
      using that assms(3) by simp
    then show ?thesis
      using that by (auto simp: fgt_def)
  qed
  have raw: "fold (\<lambda>i st.
                    let xv = rd (map Fin xs) i
                    in if fgt xv (Fin 0) \<and> flt xv (Fin L)
                       then (st\<lparr>real' := (real' st)[i := rmul (fsqrt (rdiv (Fin 2) (Fin L)))
                                                 (fsin (rdiv (rmul (rmul nq (Fin MathPI)) xv) (Fin L)))]\<rparr>)
                              \<lparr>imag := (imag st)[i := Fin 0]\<rparr>
                       else (st\<lparr>real' := (real' st)[i := Fin 0]\<rparr>)
                              \<lparr>imag := (imag st)[i := Fin 0]\<rparr>)
                  [0..<length xs]
                  \<lparr>real' = replicate (length xs) (Fin 0), imag = replicate (length xs) (Fin 0), time = Fin 0\<rparr>
      = \<lparr>real' = replicate (length xs) (Fin 0), imag = replicate (length xs) (Fin 0), time = Fin 0\<rparr>"
    unfolding shape by (rule fill_zero) (simp_all only: zero)
  show ?thesis
    unfolding createBoundState_def assms(1,2) length_map Let_def [of "length xs"]
      Let_def [of "fold _ _ _"] raw Let_def [of "fsqrt _"]
    by (rule divide_zero_samples) simp
qed

lemma createGaussianWavepacket_zero_width:
  assumes "x s = map Fin xs" and "dx s = Fin d"
    and "\<forall>v \<in> set xs. underflowThreshold < \<bar>v - c\<bar> \<and> \<bar>v - c\<bar> < overflowThreshold
           \<and> underflowThreshold < (v - c) * (v - c) \<and> \<bar>q * v\<bar> < overflowThreshold"
  shows "createGaussianWavepacket s (Fin c) (Fin 0) (Fin q)
       = \<lparr>real' = replicate (length xs) NaN, imag = replicate (length xs) NaN, time = Fin 0\<rparr>"
proof -
  have g: "rexp (rdiv (fneg (rmul (rsub (rd (map Fin xs) i) (Fin c)) (rsub (rd (map Fin xs) i) (Fin c))))
              (rmul (rmul (Fin 4) (Fin 0)) (Fin 0))) = Fin 0" if "i < length xs" for i
  proof -
    have r: "underflowThreshold < \<bar>xs ! i - c\<bar>" "\<bar>xs ! i - c\<bar> < overflowThreshold"
      "underflowThreshold < (xs ! i - c) * (xs ! i - c)"
      using that assms(3) by simp_all
    have d: "fromReal (xs ! i - c) = Fin (xs ! i - c)"
      using r(1,2) by (rule fromReal_normal)
    have "fromReal ((xs ! i - c) * (xs ! i - c)) = Fin ((xs ! i - c) * (xs ! i - c))
        \<or> fromReal ((xs ! i - c) * (xs ! i - c)) = PosInf"
      using r(3) thresholds(1) by (auto simp: fromReal_def)
    then have "rdiv (fneg (fromReal ((xs ! i - c) * (xs ! i - c)))) (Fin 0) = NegInf"
      using r(3) thresholds(1) by (auto simp: rdiv_def finf_def)
    then show ?thesis
      using that by (simp add: d rexp_def)
  qed
  have z: "rmul (Fin 0) (fcos (rmul (Fin q) (rd (map Fin xs) i))) = Fin 0"
    "rmul (Fin 0) (fsin (rmul (Fin q) (rd (map Fin xs) i))) = Fin 0" if "i < length xs" for i
  proof -
    have "\<bar>q * (xs ! i)\<bar> < overflowThreshold"
      using that assms(3) by simp
    then obtain y where "fromReal (q * (xs ! i)) = Fin y"
      using fromReal_magnitude by blast
    then show "rmul (Fin 0) (fcos (rmul (Fin q) (rd (map Fin xs) i))) = Fin 0"
      "rmul (Fin 0) (fsin (rmul (Fin q) (rd (map Fin xs) i))) = Fin 0"
      using that by simp_all
  qed
  have raw: "fold (\<lambda>i st.
                    let xv = rd (map Fin xs) i;
                        gaussian = rexp (rdiv (fneg (rmul (rsub xv (Fin c)) (rsub xv (Fin c))))
                                     (rmul (rmul (Fin 4) (Fin 0)) (Fin 0)))
                    in (st\<lparr>real' := (real' st)[i := rmul gaussian (fcos (rmul (Fin q) xv))]\<rparr>)
                         \<lparr>imag := (imag st)[i := rmul gaussian (fsin (rmul (Fin q) xv))]\<rparr>)
                  [0..<length xs]
                  \<lparr>real' = replicate (length xs) (Fin 0), imag = replicate (length xs) (Fin 0), time = Fin 0\<rparr>
      = \<lparr>real' = replicate (length xs) (Fin 0), imag = replicate (length xs) (Fin 0), time = Fin 0\<rparr>"
    unfolding Let_def by (rule fill_zero) (simp_all only: g z)
  show ?thesis
    unfolding createGaussianWavepacket_def assms(1,2) length_map Let_def [of "length xs"]
      Let_def [of "fold _ _ _"] raw Let_def [of "fsqrt _"]
    by (rule divide_zero_samples) simp
qed

lemma trim_Nil [simp]: "trim [] = []"
  by (simp add: trim_def)

lemma zero_norm_guard:
  "\<not> fgt (fsqrt (rmul (sumSquares n (replicate n (Fin 0)) (replicate n (Fin 0))) d)) (Fin 0)"
  by (cases d) (simp_all add: sumSquares_zero fgt_def finf_def rmul_def)

lemma createCustomWavefunction_empty:
  "createCustomWavefunction evaluate numberToString s [] [] ps
   = Inr \<lparr>real' = replicate (length (x s)) (Fin 0), imag = replicate (length (x s)) (Fin 0), time = Fin 0\<rparr>"
proof -
  have p: "parseComplexFunction evaluate numberToString [] [] xv tv ps = Inr (Fin 0, Fin 0)" for xv tv
    by (simp add: parseComplexFunction_def)
  have raw: "customSamples evaluate numberToString s [] [] ps
      = \<lparr>real' = replicate (length (x s)) (Fin 0), imag = replicate (length (x s)) (Fin 0), time = Fin 0\<rparr>"
    unfolding customSamples_def p by (simp only: sum.case prod.case) (rule fill_zero, simp_all)
  show ?thesis
    unfolding createCustomWavefunction_def Let_def raw
    using zero_norm_guard [of "length (x s)" "dx s"] by simp
qed

lemma effectiveGridSize_2: "effectiveGridSize 2 = 2"
  using effectiveGridSize_fix [of 1] by simp

lemma two_point_grid:
  "x (TDSESolver_setup \<lparr>gridSize = 2, xMin = Fin (- 1), xMax = Fin 1, dt = Fin t, hbar = Fin h, mass = Fin m\<rparr>)
     = map Fin [- 1, 0]"
  "dx (TDSESolver_setup \<lparr>gridSize = 2, xMin = Fin (- 1), xMax = Fin 1, dt = Fin t, hbar = Fin h, mass = Fin m\<rparr>)
     = Fin 1"
proof -
  let ?s = "TDSESolver_setup \<lparr>gridSize = 2, xMin = Fin (- 1), xMax = Fin 1, dt = Fin t, hbar = Fin h, mass = Fin m\<rparr>"
  show d: "dx ?s = Fin 1"
    by (simp add: constructor_fields effectiveGridSize_2 fsub_def)
  have "length (x ?s) = 2"
    by (simp add: constructor_fields effectiveGridSize_2)
  moreover have "x ?s ! 0 = Fin (- 1)" "x ?s ! 1 = Fin 0"
    by (simp_all add: constructor_x_nth effectiveGridSize_2 fsub_def)
  ultimately show "x ?s = map Fin [- 1, 0]"
    by (intro nth_equalityI) (auto simp: less_Suc_eq numeral_2_eq_2)
qed
subsection \<open>The stages of a time step\<close>







lemma finite_entry:
  "allFinite a \<Longrightarrow> i < length a \<Longrightarrow> a ! i = Fin (finiteValue (a ! i))"
  by (auto simp: allFinite_nth finiteValue_def)





lemma fold_update_finite:
  assumes "allFinite a" and "\<And>i. \<exists>r. f i = Fin r"
  shows "allFinite (fold (\<lambda>i a. a[i := f i]) js a)"
  using assms(1)
proof (induction js arbitrary: a)
  case Nil
  then show ?case by simp
next
  case (Cons i js)
  have "allFinite (a[i := f i])"
    unfolding allFinite_nth
  proof (intro allI impI)
    fix j assume "j < length (a[i := f i])"
    then have j: "j < length a"
      by simp
    show "\<exists>r. a[i := f i] ! j = Fin r"
    proof (cases "j = i")
      case True
      then show ?thesis
        using j assms(2) [of i] by simp
    next
      case False
      then show ?thesis
        using j Cons.prems by (simp add: allFinite_nth)
    qed
  qed
  then show ?case
    using Cons.IH by simp
qed

lemma constructor_k_finite:
  assumes "xMin p = Fin a" and "xMax p = Fin b" and "a \<noteq> b"
    and "i < effectiveGridSize (gridSize p)"
  shows "\<exists>r. k (TDSESolver_setup p) ! i = Fin r"
proof -
  define n where "n = effectiveGridSize (gridSize p)"
  define DK where "DK = fdiv (fmul (Fin 2) (Fin MathPI)) (fsub (xMax p) (xMin p))"
  have dk: "DK = Fin (2 * MathPI / (b - a))"
    using assms(1-3) by (simp add: DK_def fsub_def)
  define k1 where "k1 = fold (\<lambda>i a. a[i := fmul (Fin (real i)) DK]) [0..<(n + 1) div 2] (replicate n (Fin 0))"
  define k2 where "k2 = (if even n
                then fold (\<lambda>i a. a[i := fmul (Fin (real i - real n)) DK]) [n div 2..<n] k1
                else k1)"
  have kk: "k (TDSESolver_setup p) = k2"
    unfolding k2_def k1_def DK_def n_def TDSESolver_setup_def Let_def
    by (simp add: updateKineticOperator_frame)
  have f1: "allFinite k1"
    unfolding k1_def by (rule fold_update_finite) (simp_all add: dk)
  have "allFinite (fold (\<lambda>i a. a[i := fmul (Fin (real i - real n)) DK]) [n div 2..<n] k1)"
    using f1 by (rule fold_update_finite) (simp add: dk)
  then have f2: "allFinite k2"
    using f1 by (simp add: k2_def)
  have "length k2 = n"
    by (simp add: k2_def k1_def)
  then show ?thesis
    unfolding kk using f2 assms(4) by (simp add: allFinite_nth n_def)
qed

lemma kineticPhase_finite:
  "hbar p = Fin h \<Longrightarrow> dt p = Fin t \<Longrightarrow> mass p = Fin m \<Longrightarrow> m \<noteq> 0 \<Longrightarrow>
   kineticPhase p (Fin q) = Fin (- h * q * q * t / (2 * m))"
  by (simp add: kineticPhase_def)

lemma constructor_kinetic_phases:
  assumes "xMin p = Fin a" and "xMax p = Fin b" and "a \<noteq> b"
    and "hbar p = Fin h" and "dt p = Fin t" and "mass p = Fin m" and "m \<noteq> 0"
    and i: "i < effectiveGridSize (gridSize p)"
  shows "\<exists>c. expT_real (TDSESolver_setup p) ! i = Fin (cos c)
           \<and> expT_imag (TDSESolver_setup p) ! i = Fin (sin c)"
proof -
  define n where "n = effectiveGridSize (gridSize p)"
  define s0 where "s0 = \<lparr>params = p\<lparr>gridSize := n\<rparr>,
            x = x (TDSESolver_setup p), dx = dx (TDSESolver_setup p),
            k = k (TDSESolver_setup p), dk = dk (TDSESolver_setup p),
            expVhalf_real = replicate n (Fin 0), expVhalf_imag = replicate n (Fin 0),
            expT_real = replicate n (Fin 0), expT_imag = replicate n (Fin 0),
            potential = replicate n (Fin 0)\<rparr>"
  have c: "TDSESolver_setup p = updateKineticOperator s0"
    unfolding s0_def n_def TDSESolver_setup_def Let_def
    by (simp add: updateKineticOperator_frame)
  obtain q where q: "k (TDSESolver_setup p) ! i = Fin q"
    using constructor_k_finite [OF assms(1-3) i] by blast
  have lk: "length (k (TDSESolver_setup p)) = n"
    by (simp add: constructor_fields n_def)
  have "expT_real (updateKineticOperator s0) ! i = fcos (kineticPhase (params s0) (rd (k s0) i))
       \<and> expT_imag (updateKineticOperator s0) ! i = fsin (kineticPhase (params s0) (rd (k s0) i))"
    using i by (intro updateKineticOperator_nth) (simp_all add: s0_def n_def)
  moreover have "rd (k s0) i = Fin q"
    using q lk i by (simp add: s0_def rd_def n_def)
  moreover have "kineticPhase (params s0) (Fin q) = Fin (- h * q * q * t / (2 * m))"
    using assms(4-7) by (intro kineticPhase_finite) (simp_all add: s0_def)
  ultimately have "expT_real (updateKineticOperator s0) ! i = Fin (cos (- h * q * q * t / (2 * m)))
       \<and> expT_imag (updateKineticOperator s0) ! i = Fin (sin (- h * q * q * t / (2 * m)))"
    by simp
  then show ?thesis
    unfolding c by (rule exI)
qed

lemma constructed_finite:
  assumes "xMin p = Fin a" and "xMax p = Fin b" and "a \<noteq> b"
    and "hbar p = Fin h" and "dt p = Fin t" and "mass p = Fin m" and "m \<noteq> 0"
  shows "operatorsFinite (TDSESolver_setup p)"
  unfolding operatorsFinite_def allFinite_nth
  using constructor_kinetic_phases [OF assms]
  by (simp add: constructor_fields) metis


subsection \<open>Custom functions\<close>

lemma potential_loop_error:
  "fold (\<lambda>i acc. case acc of
               Inl e \<Rightarrow> Inl e
             | Inr V \<Rightarrow> (case P i of Inl e \<Rightarrow> Inl PotentialError | Inr v \<Rightarrow> Inr (V[i := v])))
     js (Inl e) = Inl e"
  by (induction js) simp_all

lemma potential_loop_fails:
  assumes "j \<in> set js" and "P j = Inl e"
  shows "fold (\<lambda>i acc. case acc of
               Inl e \<Rightarrow> Inl e
             | Inr V \<Rightarrow> (case P i of Inl e \<Rightarrow> Inl PotentialError | Inr v \<Rightarrow> Inr (V[i := v])))
     js (Inr V0) = Inl PotentialError"
  using assms(1)
proof (induction js arbitrary: V0)
  case Nil
  then show ?case by simp
next
  case (Cons i js)
  show ?case
  proof (cases "P i")
    case (Inl a)
    then show ?thesis
      by (simp add: potential_loop_error)
  next
    case (Inr v)
    then have "i \<noteq> j"
      using assms(2) by auto
    then have "j \<in> set js"
      using Cons.prems by simp
    then show ?thesis
      using Cons.IH Inr by simp
  qed
qed

lemma customSamples_nth:
  assumes "i < length (x solver)"
  shows "real' (customSamples evaluate numberToString solver realExpr imagExpr ps) ! i
       = (case parseComplexFunction evaluate numberToString realExpr imagExpr (x solver ! i) (Fin 0) ps of
            Inr (re, im) \<Rightarrow> re | Inl e \<Rightarrow> Fin 0)"
    and "imag (customSamples evaluate numberToString solver realExpr imagExpr ps) ! i
       = (case parseComplexFunction evaluate numberToString realExpr imagExpr (x solver ! i) (Fin 0) ps of
            Inr (re, im) \<Rightarrow> im | Inl e \<Rightarrow> Fin 0)"
    and "length (real' (customSamples evaluate numberToString solver realExpr imagExpr ps)) = length (x solver)"
    and "length (imag (customSamples evaluate numberToString solver realExpr imagExpr ps)) = length (x solver)"
proof -
  let ?P = "\<lambda>i. parseComplexFunction evaluate numberToString realExpr imagExpr (rd (x solver) i) (Fin 0) ps"
  have shape: "(\<lambda>i st.
             case ?P i of
               Inr (re, im) \<Rightarrow> (st\<lparr>real' := (real' st)[i := re]\<rparr>)\<lparr>imag := (imag st)[i := im]\<rparr>
             | Inl e \<Rightarrow> (st\<lparr>real' := (real' st)[i := Fin 0]\<rparr>)\<lparr>imag := (imag st)[i := Fin 0]\<rparr>)
      = (\<lambda>i st. (st\<lparr>real' := (real' st)[i := (case ?P i of Inr (re, im) \<Rightarrow> re | Inl e \<Rightarrow> Fin 0)]\<rparr>)
                    \<lparr>imag := (imag st)[i := (case ?P i of Inr (re, im) \<Rightarrow> im | Inl e \<Rightarrow> Fin 0)]\<rparr>)"
    by (intro ext) (simp split: sum.split prod.split)
  have c: "customSamples evaluate numberToString solver realExpr imagExpr ps
      = \<lparr>real' = map (\<lambda>i. case ?P i of Inr (re, im) \<Rightarrow> re | Inl e \<Rightarrow> Fin 0) [0..<length (x solver)],
         imag = map (\<lambda>i. case ?P i of Inr (re, im) \<Rightarrow> im | Inl e \<Rightarrow> Fin 0) [0..<length (x solver)],
         time = Fin 0\<rparr>"
    unfolding customSamples_def shape fill_state by (simp add: fold_update_replicate)
  show "real' (customSamples evaluate numberToString solver realExpr imagExpr ps) ! i
       = (case parseComplexFunction evaluate numberToString realExpr imagExpr (x solver ! i) (Fin 0) ps of
            Inr (re, im) \<Rightarrow> re | Inl e \<Rightarrow> Fin 0)"
    and "imag (customSamples evaluate numberToString solver realExpr imagExpr ps) ! i
       = (case parseComplexFunction evaluate numberToString realExpr imagExpr (x solver ! i) (Fin 0) ps of
            Inr (re, im) \<Rightarrow> im | Inl e \<Rightarrow> Fin 0)"
    and "length (real' (customSamples evaluate numberToString solver realExpr imagExpr ps)) = length (x solver)"
    and "length (imag (customSamples evaluate numberToString solver realExpr imagExpr ps)) = length (x solver)"
    unfolding c using assms by simp_all
qed

lemma zero_over_positive: "fgt nrm (Fin 0) \<Longrightarrow> rdiv (Fin 0) nrm = Fin 0"
  by (cases nrm) (simp_all add: fgt_def rdiv_def)

subsection \<open>The norm within the range of the doubles\<close>
















subsection \<open>A grid of two points\<close>

lemma two_point_constructor:
  "TDSESolver_constructor \<lparr>gridSize = 2, xMin = a, xMax = b, dt = t, hbar = h, mass = m\<rparr>
     = Inr (TDSESolver_setup \<lparr>gridSize = 2, xMin = a, xMax = b, dt = t, hbar = h, mass = m\<rparr>)"
  using FFT_constructor_power [of 1] by (simp add: constructor_result effectiveGridSize_2)


lemma replicate_2: "replicate 2 v = [v, v]" "replicate (2 * 2) v = [v, v, v, v]"
  by (simp_all add: eval_nat_numeral)













section \<open>Properties\<close>

subsection \<open>Clamping of parameter values\<close>




subsection \<open>The solver's grid and operators\<close>







subsection \<open>Drawn potentials\<close>

text \<open>
  C8, as stated, at the two control points \<^verbatim>\<open>(1, 5)\<close> and \<^verbatim>\<open>(1, 7)\<close> and the grid
  point \<^verbatim>\<open>1\<close>: the grid point is at the largest control-point x, and the potential
  there is 5, the y of the first point, not 7, the y of the last one.
\<close>

theorem createDrawnPotential_last_counterexample:
  "\<not> (fge (Fin 1) (Fin (fst (last (sort_key fst [(1, 5), (1, 7)]))))
      \<longrightarrow> createDrawnPotential [Fin 1] [(1, 5), (1, 7)] ! 0
          = Fin (snd (last (sort_key fst [(1, 5), (1, 7)]))))"
  by (simp add: createDrawnPotential_nth drawnValue_left)

text \<open>
  C8, amended: for a list of control points that is not empty and a finite grid point
  \<^verbatim>\<open>x[i]\<close>, with the control points sorted by x (stably): at or below the smallest
  control-point x the potential is the y of the first point; above the smallest and at or
  above the largest control-point x it is the y of the last point; strictly between two
  adjacent control points it is the linear interpolation of their y values.
\<close>

theorem createDrawnPotential_piecewise_linear:
  assumes "points \<noteq> []" and "i < length xs" and "xs ! i = Fin xi"
  shows "sorted (map fst (sort_key fst points)) \<and> mset (sort_key fst points) = mset points
       \<and> (xi \<le> fst (hd (sort_key fst points)) \<longrightarrow>
            createDrawnPotential xs points ! i = Fin (snd (hd (sort_key fst points))))
       \<and> (fst (hd (sort_key fst points)) < xi \<and> fst (last (sort_key fst points)) \<le> xi \<longrightarrow>
            createDrawnPotential xs points ! i = Fin (snd (last (sort_key fst points))))
       \<and> (\<forall>j. j + 1 < length points
              \<and> fst (sort_key fst points ! j) < xi \<and> xi < fst (sort_key fst points ! (j + 1)) \<longrightarrow>
            createDrawnPotential xs points ! i =
              Fin (snd (sort_key fst points ! j)
                   + (xi - fst (sort_key fst points ! j))
                     / (fst (sort_key fst points ! (j + 1)) - fst (sort_key fst points ! j))
                     * (snd (sort_key fst points ! (j + 1)) - snd (sort_key fst points ! j))))"
proof -
  let ?sp = "sort_key fst points"
  have ne: "?sp \<noteq> []"
    using assms(1) by (metis length_sort list.size(3) length_0_conv)
  have hd: "hd ?sp = ?sp ! 0" and last: "last ?sp = ?sp ! (length ?sp - 1)"
    using ne by (simp_all add: hd_conv_nth last_conv_nth)
  have V: "createDrawnPotential xs points ! i = drawnValue ?sp (Fin xi)"
    using createDrawnPotential_nth [OF assms(1,2)] assms(3) by simp
  have srt: "sorted (map fst ?sp)"
    by (rule sorted_sort_key)
  have between: "drawnValue ?sp (Fin xi) =
      Fin (snd (?sp ! j) + (xi - fst (?sp ! j)) / (fst (?sp ! (j + 1)) - fst (?sp ! j))
             * (snd (?sp ! (j + 1)) - snd (?sp ! j)))"
    if "j + 1 < length points" "fst (?sp ! j) < xi" "xi < fst (?sp ! (j + 1))" for j
    using drawnValue_between [OF srt _ that(2,3)] that(1) by simp
  show ?thesis
    unfolding V hd last
    using srt between drawnValue_left [of xi ?sp] drawnValue_right [of ?sp xi]
    by (simp del: sort_key_simps)
qed

theorem createDrawnPotential_piecewise_linear_witness:
  "createDrawnPotential [Fin (- 1), Fin 1, Fin 3] [(2, 4), (0, 0)] ! 0 = Fin 0
   \<and> createDrawnPotential [Fin (- 1), Fin 1, Fin 3] [(2, 4), (0, 0)] ! 1 = Fin 2
   \<and> createDrawnPotential [Fin (- 1), Fin 1, Fin 3] [(2, 4), (0, 0)] ! 2 = Fin 4"
proof -
  have s: "sort_key fst [(2 :: real, 4 :: real), (0, 0)] = [(0, 0), (2, 4)]"
    by simp
  have ne: "[(2 :: real, 4 :: real), (0, 0)] \<noteq> []"
    by simp
  have a: "createDrawnPotential [Fin (- 1), Fin 1, Fin 3] [(2, 4), (0, 0)] ! 0 = Fin 0"
    using createDrawnPotential_piecewise_linear [OF ne, of 0 "[Fin (- 1), Fin 1, Fin 3]" "- 1"]
    unfolding s by simp
  have b: "createDrawnPotential [Fin (- 1), Fin 1, Fin 3] [(2, 4), (0, 0)] ! 2 = Fin 4"
    using createDrawnPotential_piecewise_linear [OF ne, of 2 "[Fin (- 1), Fin 1, Fin 3]" 3]
    unfolding s by simp
  have "\<forall>j. j + 1 < length [(2 :: real, 4 :: real), (0, 0)]
              \<and> fst ([(0 :: real, 0 :: real), (2, 4)] ! j) < 1 \<and> 1 < fst ([(0 :: real, 0 :: real), (2, 4)] ! (j + 1)) \<longrightarrow>
            createDrawnPotential [Fin (- 1), Fin 1, Fin 3] [(2, 4), (0, 0)] ! 1 =
              Fin (snd ([(0 :: real, 0 :: real), (2, 4)] ! j)
                   + (1 - fst ([(0 :: real, 0 :: real), (2, 4)] ! j))
                     / (fst ([(0 :: real, 0 :: real), (2, 4)] ! (j + 1)) - fst ([(0 :: real, 0 :: real), (2, 4)] ! j))
                     * (snd ([(0 :: real, 0 :: real), (2, 4)] ! (j + 1)) - snd ([(0 :: real, 0 :: real), (2, 4)] ! j)))"
    using createDrawnPotential_piecewise_linear [OF ne, of 1 "[Fin (- 1), Fin 1, Fin 3]" 1]
    unfolding s by simp
  then have c: "createDrawnPotential [Fin (- 1), Fin 1, Fin 3] [(2, 4), (0, 0)] ! 1 = Fin 2"
    by (drule_tac x = 0 in spec) simp
  show ?thesis
    using a b c by simp
qed

subsection \<open>Expressions and their parameters\<close>

text \<open>
  C2: \<^verbatim>\<open>extractParameterNames\<close> applied to \<^verbatim>\<open>A*sin(k*x+phi)\<close> does not return the
  names A, k and phi. The greedy match of \<^verbatim>\<open>sin\<close> fails the lookahead and gives back
  one character, so \<^verbatim>\<open>si\<close> is matched and kept; the names of one letter are dropped
  by the test on the length. The result is \<^verbatim>\<open>si\<close> and \<^verbatim>\<open>phi\<close>. The companion
  \<^verbatim>\<open>extractSingleLetterVariables\<close> returns A, s, k and p: the first letters of
  \<^verbatim>\<open>sin\<close> and \<^verbatim>\<open>phi\<close> are matched because the pattern does not end at a word
  boundary. Neither list, nor the two together, is the set of A, k and phi.
\<close>

theorem extractParameterNames_example:
  "extractParameterNames ''A*sin(k*x+phi)'' = [''si'', ''phi'']
   \<and> extractSingleLetterVariables ''A*sin(k*x+phi)'' = [''A'', ''s'', ''k'', ''p'']
   \<and> set (extractParameterNames ''A*sin(k*x+phi)'') \<noteq> {''A'', ''k'', ''phi''}
   \<and> set (extractParameterNames ''A*sin(k*x+phi)'' @ extractSingleLetterVariables ''A*sin(k*x+phi)'')
       \<noteq> {''A'', ''k'', ''phi''}"
  by code_simp

text \<open>
  C7: substitution replaces whole words only. When every parameter name is an identifier,
  an identifier \<^verbatim>\<open>w\<close> of the expression that is not the name of a parameter (it stands
  between a text that does not end with a word character and a text that does not start
  with one) is in the result at its place, unchanged, and the texts before and after it
  are substituted on their own. The parameter list is arbitrary, so this holds in whatever
  order the parameters are substituted: substituting \<^verbatim>\<open>k\<close> leaves \<^verbatim>\<open>sqrt\<close> and
  \<^verbatim>\<open>k0\<close> as they are.
\<close>

theorem substituteParameters_whole_words:
  assumes "\<forall>p \<in> set ps. wordString (name p)" and "wordString w" and "w \<notin> name ` set ps"
    and "\<not> endsWithWord pre" and "\<not> startsWithWord post"
  shows "substituteParameters numberToString (pre @ w @ post) ps
       = substituteParameters numberToString pre ps @ w @ substituteParameters numberToString post ps"
  using assms
proof (induction ps arbitrary: pre post)
  case Nil
  then show ?case by (simp add: substituteParameters_def)
next
  case (Cons p ps)
  let ?r = "''('' @ numberToString (value p) @ '')''"
  have nm: "wordString (name p)" and ne: "w \<noteq> name p"
    using Cons.prems by auto
  have a: "\<not> endsWithWord (replaceAllWord (name p) ?r pre)"
    unfolding replaceAllWord_def by (rule replaceWord_nonword_end [OF nm Cons.prems(4)])
  have b: "\<not> startsWithWord (replaceAllWord (name p) ?r post)"
    unfolding replaceAllWord_def by (rule replaceWord_nonword_start(2) [OF nm Cons.prems(5)])
  have "substituteParameters numberToString (replaceAllWord (name p) ?r pre @ w @ replaceAllWord (name p) ?r post) ps
      = substituteParameters numberToString (replaceAllWord (name p) ?r pre) ps @ w
        @ substituteParameters numberToString (replaceAllWord (name p) ?r post) ps"
    using Cons.prems by (intro Cons.IH a b) auto
  then show ?case
    unfolding substituteParameters_Cons
    by (simp only: replaceAllWord_keeps_word [OF nm Cons.prems(2) ne Cons.prems(4,5)])
qed



theorem substituteParameters_whole_words_witness:
  "substituteParameters (\<lambda>v. if v = Fin 1 then ''1'' else ''2'') ''k*sqrt(k0)+A''
     [createParameter ''k'' (Fin 1) (Fin (- 10)) (Fin 10) (Fin 0.1) None, createParameter ''A'' (Fin 2) (Fin (- 5)) (Fin 5) (Fin 0.1) None]
   = ''(1)*sqrt(k0)+(2)''
   \<and> substituteParameters (\<lambda>v. if v = Fin 1 then ''1'' else ''2'') ''k*sqrt(k0)+A''
     [createParameter ''A'' (Fin 2) (Fin (- 5)) (Fin 5) (Fin 0.1) None, createParameter ''k'' (Fin 1) (Fin (- 10)) (Fin 10) (Fin 0.1) None]
   = ''(1)*sqrt(k0)+(2)''"
proof -
  let ?n = "\<lambda>v. if v = Fin 1 then ''1'' else ''2''"
  let ?k = "createParameter ''k'' (Fin 1) (Fin (- 10)) (Fin 10) (Fin 0.1) None"
  let ?A = "createParameter ''A'' (Fin 2) (Fin (- 5)) (Fin 5) (Fin 0.1) None"
  have names: "name ?k = ''k''" "name ?A = ''A''" and vals: "value ?k = Fin 1" "value ?A = Fin 2"
    by (simp_all add: createParameter_def)
  have w: "wordString ''k''" "wordString ''A''" "wordString ''sqrt''" "wordString ''k0''"
    by code_simp+
  have b: "\<not> endsWithWord ''k*''" "\<not> startsWithWord ''(k0)+A''"
    "\<not> endsWithWord ''(''" "\<not> startsWithWord '')+A''"
    by code_simp+
  have ids1: "\<forall>p \<in> set [?k, ?A]. wordString (name p)" and ids2: "\<forall>p \<in> set [?A, ?k]. wordString (name p)"
    using w names by simp_all
  have n1: "''sqrt'' \<notin> name ` set [?k, ?A]" "''k0'' \<notin> name ` set [?k, ?A]"
    and n2: "''sqrt'' \<notin> name ` set [?A, ?k]" "''k0'' \<notin> name ` set [?A, ?k]"
    using names by simp_all
  have pre: "replaceAllWord ''k'' ''(1)'' ''k*'' = ''(1)*''" "replaceAllWord ''A'' ''(2)'' ''(1)*'' = ''(1)*''"
    "replaceAllWord ''A'' ''(2)'' ''k*'' = ''k*''"
    and mid: "replaceAllWord ''k'' ''(1)'' ''('' = ''(''" "replaceAllWord ''A'' ''(2)'' ''('' = ''(''"
    and post: "replaceAllWord ''k'' ''(1)'' '')+A'' = '')+A''" "replaceAllWord ''A'' ''(2)'' '')+A'' = '')+(2)''"
    "replaceAllWord ''k'' ''(1)'' '')+(2)'' = '')+(2)''"
    by code_simp+
  have s1: "substituteParameters ?n (''k*'' @ ''sqrt'' @ ''(k0)+A'') [?k, ?A]
      = substituteParameters ?n ''k*'' [?k, ?A] @ ''sqrt'' @ substituteParameters ?n ''(k0)+A'' [?k, ?A]"
    by (rule substituteParameters_whole_words [OF ids1 w(3) n1(1) b(1) b(2)])
  have s2: "substituteParameters ?n (''('' @ ''k0'' @ '')+A'') [?k, ?A]
      = substituteParameters ?n ''('' [?k, ?A] @ ''k0'' @ substituteParameters ?n '')+A'' [?k, ?A]"
    by (rule substituteParameters_whole_words [OF ids1 w(4) n1(2) b(3) b(4)])
  have s3: "substituteParameters ?n (''k*'' @ ''sqrt'' @ ''(k0)+A'') [?A, ?k]
      = substituteParameters ?n ''k*'' [?A, ?k] @ ''sqrt'' @ substituteParameters ?n ''(k0)+A'' [?A, ?k]"
    by (rule substituteParameters_whole_words [OF ids2 w(3) n2(1) b(1) b(2)])
  have s4: "substituteParameters ?n (''('' @ ''k0'' @ '')+A'') [?A, ?k]
      = substituteParameters ?n ''('' [?A, ?k] @ ''k0'' @ substituteParameters ?n '')+A'' [?A, ?k]"
    by (rule substituteParameters_whole_words [OF ids2 w(4) n2(2) b(3) b(4)])
  have small: "substituteParameters ?n ''k*'' [?k, ?A] = ''(1)*''" "substituteParameters ?n ''k*'' [?A, ?k] = ''(1)*''"
    "substituteParameters ?n ''('' [?k, ?A] = ''(''" "substituteParameters ?n ''('' [?A, ?k] = ''(''"
    "substituteParameters ?n '')+A'' [?k, ?A] = '')+(2)''" "substituteParameters ?n '')+A'' [?A, ?k] = '')+(2)''"
    by (simp_all add: substituteParameters_def names vals pre mid post)
  show ?thesis
    using s1 s2 s3 s4 small by simp
qed

subsection \<open>Initial states of norm zero\<close>

text \<open>
  C4: on the grid of the two points \<^verbatim>\<open>-1\<close> and \<^verbatim>\<open>0\<close> (spacing 1), the plane wave
  of amplitude 0, the bound state of a well of width one half (no grid point lies inside
  it) and the Gaussian of width 0 centred between the grid points all have samples that
  are zero, hence a norm of zero. The three preset initializers divide by it all the same
  and return \<^verbatim>\<open>NaN\<close> in every entry; the custom-function initializer, which tests the
  norm first, returns the all-zero state.
\<close>

theorem preset_initializers_divide_by_zero:
  "TDSESolver_constructor
     \<lparr>gridSize = 2, xMin = Fin (- 1), xMax = Fin 1, dt = Fin 0.01, hbar = Fin 1, mass = Fin 1\<rparr>
   = Inr (TDSESolver_setup
     \<lparr>gridSize = 2, xMin = Fin (- 1), xMax = Fin 1, dt = Fin 0.01, hbar = Fin 1, mass = Fin 1\<rparr>)
   \<and> createPlaneWave
     (TDSESolver_setup \<lparr>gridSize = 2, xMin = Fin (- 1), xMax = Fin 1, dt = Fin 0.01, hbar = Fin 1, mass = Fin 1\<rparr>)
     (Fin 0) (Fin 1)
   = \<lparr>real' = [NaN, NaN], imag = [NaN, NaN], time = Fin 0\<rparr>
   \<and> createBoundState
     (TDSESolver_setup \<lparr>gridSize = 2, xMin = Fin (- 1), xMax = Fin 1, dt = Fin 0.01, hbar = Fin 1, mass = Fin 1\<rparr>)
     (Fin 1) (Fin 0.5)
   = \<lparr>real' = [NaN, NaN], imag = [NaN, NaN], time = Fin 0\<rparr>
   \<and> createGaussianWavepacket
     (TDSESolver_setup \<lparr>gridSize = 2, xMin = Fin (- 1), xMax = Fin 1, dt = Fin 0.01, hbar = Fin 1, mass = Fin 1\<rparr>)
     (Fin 0.5) (Fin 0) (Fin 0)
   = \<lparr>real' = [NaN, NaN], imag = [NaN, NaN], time = Fin 0\<rparr>
   \<and> createCustomWavefunction evaluate numberToString
     (TDSESolver_setup \<lparr>gridSize = 2, xMin = Fin (- 1), xMax = Fin 1, dt = Fin 0.01, hbar = Fin 1, mass = Fin 1\<rparr>)
     [] [] []
   = Inr \<lparr>real' = [Fin 0, Fin 0], imag = [Fin 0, Fin 0], time = Fin 0\<rparr>"
proof -
  let ?s = "TDSESolver_setup \<lparr>gridSize = 2, xMin = Fin (- 1), xMax = Fin 1, dt = Fin 0.01, hbar = Fin 1, mass = Fin 1\<rparr>"
  note g = two_point_grid [of "0.01" 1 1]
  have r: "replicate (length [- 1 :: real, 0]) v = [v, v]" for v :: float64
    by (simp add: numeral_2_eq_2)
  have small: "\<forall>v \<in> set [- 1, 0 :: real]. \<bar>1 * v\<bar> < overflowThreshold"
    using thresholds(3) by simp
  have a: "createPlaneWave ?s (Fin 0) (Fin 1) = \<lparr>real' = [NaN, NaN], imag = [NaN, NaN], time = Fin 0\<rparr>"
    using createPlaneWave_zero_amplitude [OF g small] by (simp only: r)
  have b: "createBoundState ?s (Fin 1) (Fin 0.5) = \<lparr>real' = [NaN, NaN], imag = [NaN, NaN], time = Fin 0\<rparr>"
    using createBoundState_outside [OF g, of "0.5" "Fin 1"] by (simp add: numeral_2_eq_2)
  have c: "createGaussianWavepacket ?s (Fin 0.5) (Fin 0) (Fin 0)
      = \<lparr>real' = [NaN, NaN], imag = [NaN, NaN], time = Fin 0\<rparr>"
    using createGaussianWavepacket_zero_width [OF g, of "0.5" 0]
    by (simp add: numeral_2_eq_2 overflowThreshold_def underflowThreshold_def)
  have d: "createCustomWavefunction evaluate numberToString ?s [] [] []
      = Inr \<lparr>real' = [Fin 0, Fin 0], imag = [Fin 0, Fin 0], time = Fin 0\<rparr>"
    unfolding createCustomWavefunction_empty g(1) by (simp add: numeral_2_eq_2)
  show ?thesis
    using a b c d by (simp add: two_point_constructor)
qed

subsection \<open>Time steps\<close>




text \<open>
  C3. Where the evaluation of a custom expression fails at a grid point (as it does when the
  expression refers to a name that is not a parameter, which the interpreter rejects),
  \<^verbatim>\<open>createCustomWavefunction\<close> still returns a state, with the sample (0, 0) at that grid
  point, while \<^verbatim>\<open>createCustomFunctionPotential\<close> fails as a whole, and the failure leaves
  \<^verbatim>\<open>generatePotential\<close> as it is.
\<close>

theorem custom_function_error_policies:
  assumes "i < length (x solver)"
      and "parseComplexFunction evaluate numberToString realExpr imagExpr (x solver ! i) (Fin 0)
             parameters = Inl e"
      and "j < length xs"
      and "potentialSafeEval evaluate numberToString parameters functionString (xs ! j) = Inl e'"
  shows "(\<exists>state. createCustomWavefunction evaluate numberToString solver realExpr imagExpr parameters
                     = Inr state
                 \<and> length (real' state) = length (x solver)
                 \<and> length (imag state) = length (x solver)
                 \<and> real' state ! i = Fin 0 \<and> imag state ! i = Fin 0)
       \<and> createCustomFunctionPotential evaluate numberToString xs functionString parameters
           = Inl PotentialError
       \<and> generatePotential evaluate numberToString xs
            (config\<lparr>type := CustomFunction, customFunction := Some functionString\<rparr>) m parameters
           = Inl PotentialError"
proof (intro conjI)
  let ?st = "customSamples evaluate numberToString solver realExpr imagExpr parameters"
  let ?n = "length (x solver)"
  define nrm where "nrm = fsqrt (rmul (sumSquares ?n (real' ?st) (imag ?st)) (dx solver))"
  have len: "length (real' ?st) = ?n" "length (imag ?st) = ?n"
    using customSamples_nth(3,4) [OF assms(1)] by simp_all
  have raw: "real' ?st ! i = Fin 0" "imag ?st ! i = Fin 0"
    using customSamples_nth(1,2) [OF assms(1), of evaluate numberToString realExpr imagExpr parameters]
      assms(2) by simp_all
  have c: "createCustomWavefunction evaluate numberToString solver realExpr imagExpr parameters
      = Inr (if fgt nrm (Fin 0) then divideBy ?n nrm ?st else ?st)"
    by (simp add: createCustomWavefunction_def Let_def nrm_def)
  show "\<exists>state. createCustomWavefunction evaluate numberToString solver realExpr imagExpr parameters
                     = Inr state
                 \<and> length (real' state) = length (x solver)
                 \<and> length (imag state) = length (x solver)
                 \<and> real' state ! i = Fin 0 \<and> imag state ! i = Fin 0"
  proof (cases "fgt nrm (Fin 0)")
    case True
    have "real' (divideBy ?n nrm ?st) ! i = Fin 0" "imag (divideBy ?n nrm ?st) ! i = Fin 0"
      using divideBy_fields [of ?n nrm ?st] len assms(1) raw zero_over_positive [OF True]
      by simp_all
    moreover have "length (real' (divideBy ?n nrm ?st)) = ?n" "length (imag (divideBy ?n nrm ?st)) = ?n"
      using divideBy_fields [of ?n nrm ?st] len by simp_all
    ultimately show ?thesis
      using c True by simp
  next
    case False
    then show ?thesis
      using c len raw by simp
  qed
next
  have "j \<in> set [0..<length xs]"
    using assms(3) by simp
  moreover have "potentialSafeEval evaluate numberToString parameters functionString (rd xs j) = Inl e'"
    using assms(3,4) by (simp add: rd_def)
  ultimately show p: "createCustomFunctionPotential evaluate numberToString xs functionString parameters
      = Inl PotentialError"
    unfolding createCustomFunctionPotential_def
    by (rule potential_loop_fails
          [where P = "\<lambda>i. potentialSafeEval evaluate numberToString parameters functionString (rd xs i)"])
  show "generatePotential evaluate numberToString xs
            (config\<lparr>type := CustomFunction, customFunction := Some functionString\<rparr>) m parameters
           = Inl PotentialError"
    using p by (simp add: generatePotential_def)
qed

theorem custom_function_error_policies_witness:
  "(let evaluate = (\<lambda>s. if s = ''(2)*B'' then JSThrows else JSNumber (Fin 1));
        numberToString = (\<lambda>v. if v = Fin 2 then ''2'' else if v = Fin 0 then ''0'' else ''-1'');
        parameters = [createParameter ''A'' (Fin 2) (Fin (- 5)) (Fin 5) (Fin 0.1) None];
        solver = TDSESolver_setup
                   \<lparr>gridSize = 2, xMin = Fin (- 1), xMax = Fin 1, dt = Fin 0.01, hbar = Fin 1, mass = Fin 1\<rparr>
    in TDSESolver_constructor
         \<lparr>gridSize = 2, xMin = Fin (- 1), xMax = Fin 1, dt = Fin 0.01, hbar = Fin 1, mass = Fin 1\<rparr>
       = Inr solver
     \<and> 0 < length (x solver)
     \<and> parseComplexFunction evaluate numberToString ''A*B'' [] (x solver ! 0) (Fin 0) parameters
         = Inl EvalError
     \<and> potentialSafeEval evaluate numberToString parameters ''A*B'' (x solver ! 0) = Inl EvalError
     \<and> (\<exists>state. createCustomWavefunction evaluate numberToString solver ''A*B'' [] parameters = Inr state
                \<and> length (real' state) = 2 \<and> length (imag state) = 2
                \<and> real' state ! 0 = Fin 0 \<and> imag state ! 0 = Fin 0)
     \<and> createCustomFunctionPotential evaluate numberToString (x solver) ''A*B'' parameters
         = Inl PotentialError
     \<and> generatePotential evaluate numberToString (x solver)
          \<lparr>type = CustomFunction, v0 = None, x0 = None, width = None, omega = None,
           customFunction = Some ''A*B'', customPoints = None\<rparr> (Fin 1) parameters
         = Inl PotentialError)"
proof -
  let ?ev = "\<lambda>s. if s = ''(2)*B'' then JSThrows else JSNumber (Fin 1)"
  let ?ns = "\<lambda>v. if v = Fin 2 then ''2'' else if v = Fin 0 then ''0'' else ''-1''"
  let ?A = "createParameter ''A'' (Fin 2) (Fin (- 5)) (Fin 5) (Fin 0.1) None"
  let ?s = "TDSESolver_setup
              \<lparr>gridSize = 2, xMin = Fin (- 1), xMax = Fin 1, dt = Fin 0.01, hbar = Fin 1, mass = Fin 1\<rparr>"
  let ?c = "\<lparr>type = CustomFunction, v0 = None, x0 = None, width = None, omega = None,
             customFunction = Some ''A*B'', customPoints = None\<rparr>"
  have A: "name ?A = ''A''" "value ?A = Fin 2"
    by (simp_all add: createParameter_def)
  have grid: "x ?s = [Fin (- 1), Fin 0]"
    using two_point_grid(1) [of "0.01" 1 1] by simp
  have strings: "trim ''A*B'' \<noteq> []" "trim [] = []"
    "replaceAllWord ''A'' ''(2)'' ''A*B'' = ''(2)*B''"
    "replaceAllWord ''x'' ''(-1)'' ''(2)*B'' = ''(2)*B''"
    "replaceAllWord ''t'' ''(0)'' ''(2)*B'' = ''(2)*B''"
    "replaceAllWord ''i'' ''(1)'' ''(2)*B'' = ''(2)*B''"
    "replaceCaret ''(2)*B'' = ''(2)*B''"
    "replaceFunctions [''sin'', ''cos'', ''tan'', ''exp'', ''sqrt'', ''abs'', ''log''] ''(2)*B'' = ''(2)*B''"
    "replaceFunctions [''sinh'', ''cosh'', ''tanh''] ''(2)*B'' = ''(2)*B''"
    "replaceFunctions [''sin'', ''cos'', ''tan'', ''sinh'', ''cosh'', ''tanh'',
                      ''exp'', ''sqrt'', ''abs'', ''log''] ''(2)*B'' = ''(2)*B''"
    "replaceAllCall ''ln'' ''Math.log('' ''(2)*B'' = ''(2)*B''"
    "replaceConstants ''(2)*B'' = ''(2)*B''"
    "safeCharacters ''(2)*B''"
    by code_simp+
  have sub: "substituteParameters ?ns ''A*B'' [?A] = ''(2)*B''"
    by (simp add: substituteParameters_def A strings)
  have w: "wavefunctionSafeEval ?ev ?ns [?A] ''A*B'' (Fin (- 1)) (Fin 0) = Inl EvalError"
    by (simp add: wavefunctionSafeEval_def Let_def sub strings)
  have h1: "0 < length (x ?s)"
    unfolding grid by simp
  have h2: "parseComplexFunction ?ev ?ns ''A*B'' [] (x ?s ! 0) (Fin 0) [?A] = Inl EvalError"
    unfolding grid by (simp add: parseComplexFunction_def w strings)
  have h3: "potentialSafeEval ?ev ?ns [?A] ''A*B'' (x ?s ! 0) = Inl EvalError"
    unfolding grid by (simp add: potentialSafeEval_def Let_def sub strings)
  have l: "length (x ?s) = 2"
    unfolding grid by simp
  have cfg: "?c\<lparr>type := CustomFunction, customFunction := Some ''A*B''\<rparr> = ?c"
    by simp
  show ?thesis
    using custom_function_error_policies [OF h1 h2 h1 h3, where config = ?c and m = "Fin 1"] h1 h2 h3
      two_point_constructor [of "Fin (- 1)" "Fin 1" "Fin 0.01" "Fin 1" "Fin 1"]
    unfolding Let_def l cfg by simp
qed





end
